theory Spec2Isabelle
  imports Complex_Main "HOL-Library.Word" "HOL-Library.Sublist"
begin

unbundle bit_operations_syntax

section \<open>Ambilight: shared constants and data\<close>

text \<open>
  The repository holds two variants of one program: \<^verbatim>\<open>pc_app/ambilight.py\<close> (class
  \<^verbatim>\<open>Ambilight\<close>, single-threaded) and \<^verbatim>\<open>pc_app/ambilight pro.py\<close> (classes
  \<^verbatim>\<open>RingBuffer\<close>, \<^verbatim>\<open>ScreenCapture\<close>, \<^verbatim>\<open>ColorProcessor\<close>, \<^verbatim>\<open>SerialSender\<close>,
  \<^verbatim>\<open>AmbilightPro\<close>). Python integers are modelled as \<open>int\<close>, bytes and \<^verbatim>\<open>uint8\<close>
  values as \<open>8 word\<close>, exceptions as values of \<open>py_error\<close>.
\<close>

datatype py_error = IndexError | ZeroDivisionError | SystemExit int

text \<open>
  What a method hands back, where a property depends on it: a method that ends without a
  \<^verbatim>\<open>return\<close> statement returns \<^verbatim>\<open>None\<close>. \<open>py_truthy\<close> is the truth value Python's
  \<^verbatim>\<open>not\<close> and \<^verbatim>\<open>if\<close> read off such a value.
\<close>

datatype py_value = PyNone | PyBool bool

fun py_truthy :: "py_value \<Rightarrow> bool" where
  "py_truthy PyNone = False"
| "py_truthy (PyBool b) = b"

type_synonym byte = "8 word"

text \<open>One \<^verbatim>\<open>uint8\<close> row \<^verbatim>\<open>(R, G, B)\<close> of the output array.\<close>

type_synonym rgb8 = "byte \<times> byte \<times> byte"

text \<open>
  One \<^verbatim>\<open>float32\<close> row \<^verbatim>\<open>(R, G, B)\<close>. The arithmetic of \<^verbatim>\<open>numpy\<close> on \<^verbatim>\<open>float32\<close> is
  idealised as exact arithmetic on \<open>real\<close>: rounding to 24 significant bits after each
  operation is left out, and so are \<^verbatim>\<open>NaN\<close> and infinities. A colour sample is the list
  of its rows.
\<close>

type_synonym rgbf = "real \<times> real \<times> real"

definition NUM_LEDS_LEFT :: int where
  "NUM_LEDS_LEFT = 19"

definition NUM_LEDS_TOP :: int where
  "NUM_LEDS_TOP = 35"

definition NUM_LEDS_RIGHT :: int where
  "NUM_LEDS_RIGHT = 19"

definition NUM_LEDS_TOTAL :: int where
  "NUM_LEDS_TOTAL = NUM_LEDS_LEFT + NUM_LEDS_TOP + NUM_LEDS_RIGHT"

section \<open>Wire frame\<close>

text \<open>
  Both constructors build the header with the same three lines:
  \<^verbatim>\<open>
  count = NUM_LEDS_TOTAL - 1
  hi, lo = (count >> 8) & 0xFF, count & 0xFF
  self.header = bytes([ord('A'), ord('d'), ord('a'), hi, lo, hi ^ lo ^ 0x55])
  \<close>
  \<open>build_header\<close> is that computation for a given total; \<^verbatim>\<open>bytes\<close> takes integers in
  \<open>0..255\<close> (here every entry is masked or a character code), so the conversion to
  \<open>8 word\<close> loses nothing.
\<close>

definition build_header :: "int \<Rightarrow> byte list" where
  "build_header n_total =
     (let count = n_total - 1;
          hi = drop_bit 8 count AND 0xFF;
          lo = count AND 0xFF
      in map word_of_int
           [of_char CHR ''A'', of_char CHR ''d'', of_char CHR ''a'', hi, lo, hi XOR lo XOR 0x55])"

definition header :: "byte list" where
  "header = build_header NUM_LEDS_TOTAL"

text \<open>\<^verbatim>\<open>colors.tobytes()\<close> of an \<open>(n, 3)\<close> \<^verbatim>\<open>uint8\<close> array: the rows in order, R, G, B.\<close>

definition tobytes :: "rgb8 list \<Rightarrow> byte list" where
  "tobytes colors = concat (map (\<lambda>(r, g, b). [r, g, b]) colors)"

text \<open>\<^verbatim>\<open>np.zeros((NUM_LEDS_TOTAL, 3), dtype=np.uint8)\<close>, the frame sent on shutdown.\<close>

definition black :: "rgb8 list" where
  "black = replicate (nat NUM_LEDS_TOTAL) (0, 0, 0)"

subsection \<open>The serial connection\<close>

text \<open>
  The open \<^verbatim>\<open>serial.Serial\<close> object: whether it is open and the byte strings written to
  it so far. Whether one call of \<^verbatim>\<open>serial.write\<close> raises is decided by the operating
  system; the model takes that outcome as an argument.
\<close>

record serial_port =
  is_open :: bool
  written :: "byte list list"

datatype write_outcome = WriteOk | WriteRaises

text \<open>
  \<^verbatim>\<open>SerialSender.send\<close> (pro):
  \<^verbatim>\<open>
  try:
      self.serial.write(self.header + colors.tobytes())
      return True
  except:
      return False
  \<close>
\<close>

definition SerialSender_send ::
  "serial_port \<Rightarrow> rgb8 list \<Rightarrow> write_outcome \<Rightarrow> py_value \<times> serial_port" where
  "SerialSender_send ser colors w =
     (case w of
        WriteOk \<Rightarrow> (PyBool True, ser\<lparr>written := written ser @ [header @ tobytes colors]\<rparr>)
      | WriteRaises \<Rightarrow> (PyBool False, ser))"

text \<open>
  \<^verbatim>\<open>SerialSender.close\<close> (pro):
  \<^verbatim>\<open>
  if self.serial and self.serial.is_open:
      black = np.zeros((NUM_LEDS_TOTAL, 3), dtype=np.uint8)
      self.send(black)
      time.sleep(0.05)
      self.serial.close()
  \<close>
\<close>

definition SerialSender_close :: "serial_port \<Rightarrow> write_outcome \<Rightarrow> serial_port" where
  "SerialSender_close ser w =
     (if is_open ser
      then (case SerialSender_send ser black w of (r, ser') \<Rightarrow> ser'\<lparr>is_open := False\<rparr>)
      else ser)"

section \<open>RingBuffer (pro): the latest-wins exchange\<close>

definition BUFFER_SIZE :: int where
  "BUFFER_SIZE = 3"

text \<open>
  Indexing a Python list of length \<open>n\<close>: \<open>py_index n i\<close> is the position that index
  \<open>i\<close> reads, counted from the end for \<open>- n \<le> i < 0\<close>; any other index raises
  \<^verbatim>\<open>IndexError\<close>. \<^verbatim>\<open>a % b\<close> raises \<^verbatim>\<open>ZeroDivisionError\<close> for \<open>b = 0\<close> and
  otherwise agrees with \<open>mod\<close> on \<open>int\<close> (the result has the sign of the divisor).
\<close>

definition py_index :: "int \<Rightarrow> int \<Rightarrow> int option" where
  "py_index n i =
     (if 0 \<le> i \<and> i < n then Some i
      else if - n \<le> i \<and> i < 0 then Some (i + n)
      else None)"

definition py_getitem :: "'a list \<Rightarrow> int \<Rightarrow> py_error + 'a" where
  "py_getitem xs i =
     (case py_index (int (length xs)) i of
        None \<Rightarrow> Inl IndexError
      | Some j \<Rightarrow> Inr (xs ! nat j))"

definition py_setitem :: "'a list \<Rightarrow> int \<Rightarrow> 'a \<Rightarrow> py_error + 'a list" where
  "py_setitem xs i v =
     (case py_index (int (length xs)) i of
        None \<Rightarrow> Inl IndexError
      | Some j \<Rightarrow> Inr (xs[nat j := v]))"

definition py_mod :: "int \<Rightarrow> int \<Rightarrow> py_error + int" where
  "py_mod a b = (if b = 0 then Inl ZeroDivisionError else Inr (a mod b))"

text \<open>
  The fields of \<^verbatim>\<open>RingBuffer\<close> (\<^verbatim>\<open>size\<close> is \<open>rb_size\<close> here; the lock is left out: every
  method body runs under it, so a method is one atomic step). The buffers are
  \<^verbatim>\<open>size\<close> separate arrays, so \<^verbatim>\<open>np.copyto(self.buffers[i], data)\<close> replaces entry \<open>i\<close>
  and \<^verbatim>\<open>self.buffers[i].copy()\<close> reads it.
\<close>

record 'a RingBuffer =
  rb_size :: int
  buffers :: "'a list"
  write_idx :: int
  read_idx :: int
  count :: int

text \<open>\<^verbatim>\<open>RingBuffer.__init__(size, shape, dtype)\<close>; \<open>zeros\<close> is \<^verbatim>\<open>np.zeros(shape, dtype)\<close>.\<close>

definition RingBuffer_init :: "int \<Rightarrow> 'a \<Rightarrow> 'a RingBuffer" where
  "RingBuffer_init sz zeros =
     \<lparr>rb_size = sz, buffers = replicate (nat sz) zeros, write_idx = 0, read_idx = 0, count = 0\<rparr>"

text \<open>
  \<^verbatim>\<open>
  def put(self, data):
      with self.lock:
          np.copyto(self.buffers[self.write_idx], data)
          self.write_idx = (self.write_idx + 1) % self.size
          if self.count < self.size:
              self.count += 1
          else:
              self.read_idx = (self.read_idx + 1) % self.size
  \<close>
\<close>

definition RingBuffer_put :: "'a RingBuffer \<Rightarrow> 'a \<Rightarrow> py_error + 'a RingBuffer" where
  "RingBuffer_put self data =
     (case py_setitem (buffers self) (write_idx self) data of
        Inl e \<Rightarrow> Inl e
      | Inr bufs \<Rightarrow>
          (case py_mod (write_idx self + 1) (rb_size self) of
             Inl e \<Rightarrow> Inl e
           | Inr w \<Rightarrow>
               if count self < rb_size self
               then Inr (self\<lparr>buffers := bufs, write_idx := w, count := count self + 1\<rparr>)
               else (case py_mod (read_idx self + 1) (rb_size self) of
                       Inl e \<Rightarrow> Inl e
                     | Inr r \<Rightarrow> Inr (self\<lparr>buffers := bufs, write_idx := w, read_idx := r\<rparr>))))"

text \<open>
  \<^verbatim>\<open>
  def get(self):
      with self.lock:
          if self.count == 0:
              return None
          idx = (self.write_idx - 1) % self.size
          data = self.buffers[idx].copy()
          self.count = 0  # Mark as consumed
          self.read_idx = self.write_idx
          return data
  \<close>
  The result is the returned value (\<open>None\<close> for Python's \<^verbatim>\<open>None\<close>) and the buffer after
  the call.
\<close>

definition RingBuffer_get :: "'a RingBuffer \<Rightarrow> py_error + ('a option \<times> 'a RingBuffer)" where
  "RingBuffer_get self =
     (if count self = 0 then Inr (None, self)
      else (case py_mod (write_idx self - 1) (rb_size self) of
              Inl e \<Rightarrow> Inl e
            | Inr idx \<Rightarrow>
                (case py_getitem (buffers self) idx of
                   Inl e \<Rightarrow> Inl e
                 | Inr data \<Rightarrow>
                     Inr (Some data, self\<lparr>count := 0, read_idx := write_idx self\<rparr>))))"

text \<open>
  A finite sequence of calls on one buffer, as the two threads may interleave them under
  the lock; an exception ends the run.
\<close>

datatype 'a rb_op = Put 'a | Get

fun run_ops :: "'a RingBuffer \<Rightarrow> 'a rb_op list \<Rightarrow> py_error + 'a RingBuffer" where
  "run_ops rb [] = Inr rb"
| "run_ops rb (Put d # ops) =
     (case RingBuffer_put rb d of Inl e \<Rightarrow> Inl e | Inr rb' \<Rightarrow> run_ops rb' ops)"
| "run_ops rb (Get # ops) =
     (case RingBuffer_get rb of Inl e \<Rightarrow> Inl e | Inr (r, rb') \<Rightarrow> run_ops rb' ops)"

text \<open>The bounds that every method relies on.\<close>

definition rb_inv :: "'a RingBuffer \<Rightarrow> bool" where
  "rb_inv rb \<longleftrightarrow>
     1 \<le> rb_size rb \<and> int (length (buffers rb)) = rb_size rb \<and>
     0 \<le> count rb \<and> count rb \<le> rb_size rb \<and>
     0 \<le> write_idx rb \<and> write_idx rb < rb_size rb \<and>
     0 \<le> read_idx rb \<and> read_idx rb < rb_size rb"

section \<open>Screen capture\<close>

definition CAPTURE_DEPTH :: int where
  "CAPTURE_DEPTH = 30"

definition DOWNSAMPLE :: int where
  "DOWNSAMPLE = 2"

text \<open>
  An entry of \<^verbatim>\<open>mss().monitors\<close>, a dictionary with the keys \<^verbatim>\<open>left\<close>, \<^verbatim>\<open>top\<close>,
  \<^verbatim>\<open>width\<close>, \<^verbatim>\<open>height\<close>; a capture region is a dictionary of the same shape.
\<close>

record mss_monitor =
  mon_left :: int
  mon_top :: int
  mon_width :: int
  mon_height :: int

record ScreenCapture =
  width :: int
  height :: int
  region_left :: mss_monitor
  region_top :: mss_monitor
  region_right :: mss_monitor

text \<open>
  Both \<^verbatim>\<open>_setup_monitor\<close> methods choose the monitor with the same two lines:
  \<^verbatim>\<open>
  idx = min(monitor_num + 1, len(monitors) - 1)
  mon = monitors[idx]
  \<close>
\<close>

definition select_monitor :: "mss_monitor list \<Rightarrow> int \<Rightarrow> py_error + mss_monitor" where
  "select_monitor monitors monitor_num =
     (let idx = min (monitor_num + 1) (int (length monitors) - 1)
      in py_getitem monitors idx)"

text \<open>The three regions of depth \<open>d\<close> along the left, top and right border of \<open>mon\<close>.\<close>

definition edge_regions :: "mss_monitor \<Rightarrow> int \<Rightarrow> ScreenCapture" where
  "edge_regions mon d =
     \<lparr>width = mon_width mon, height = mon_height mon,
      region_left = \<lparr>mon_left = mon_left mon, mon_top = mon_top mon,
                      mon_width = d, mon_height = mon_height mon\<rparr>,
      region_top = \<lparr>mon_left = mon_left mon, mon_top = mon_top mon,
                     mon_width = mon_width mon, mon_height = d\<rparr>,
      region_right = \<lparr>mon_left = mon_left mon + mon_width mon - d, mon_top = mon_top mon,
                       mon_width = d, mon_height = mon_height mon\<rparr>\<rparr>"

text \<open>\<^verbatim>\<open>ScreenCapture._setup_monitor\<close> (pro): \<^verbatim>\<open>d = CAPTURE_DEPTH\<close>.\<close>

definition ScreenCapture_setup_monitor ::
  "mss_monitor list \<Rightarrow> int \<Rightarrow> py_error + ScreenCapture" where
  "ScreenCapture_setup_monitor monitors monitor_num =
     (case select_monitor monitors monitor_num of
        Inl e \<Rightarrow> Inl e
      | Inr mon \<Rightarrow> Inr (edge_regions mon CAPTURE_DEPTH))"

text \<open>\<^verbatim>\<open>Ambilight._setup_monitor\<close> (baseline): \<^verbatim>\<open>d = min(CAPTURE_DEPTH, 50)\<close>.\<close>

definition Ambilight_setup_monitor ::
  "mss_monitor list \<Rightarrow> int \<Rightarrow> py_error + ScreenCapture" where
  "Ambilight_setup_monitor monitors monitor_num =
     (case select_monitor monitors monitor_num of
        Inl e \<Rightarrow> Inl e
      | Inr mon \<Rightarrow> Inr (edge_regions mon (min CAPTURE_DEPTH 50)))"

subsection \<open>Slices\<close>

text \<open>
  \<^verbatim>\<open>slice(start, stop, step)\<close>, each part possibly \<^verbatim>\<open>None\<close>. \<open>py_range lo hi k\<close> is
  \<^verbatim>\<open>range(lo, hi, k)\<close> for a positive step, and \<open>slice_indices\<close> the indices a slice
  with a positive step selects on an axis of length \<open>n\<close> (Python's \<^verbatim>\<open>slice.indices\<close>: a
  negative bound counts from the end, every bound is cut to \<open>[0, n]\<close>). The source only
  uses the steps \<^verbatim>\<open>DOWNSAMPLE\<close> and \<^verbatim>\<open>None\<close>.
\<close>

datatype py_slice = Slice "int option" "int option" "int option"

definition py_range :: "int \<Rightarrow> int \<Rightarrow> int \<Rightarrow> int list" where
  "py_range lo hi k = filter (\<lambda>i. (i - lo) mod k = 0) [lo..hi - 1]"

definition slice_bound :: "int option \<Rightarrow> int \<Rightarrow> int \<Rightarrow> int" where
  "slice_bound b dflt n =
     (case b of None \<Rightarrow> dflt | Some i \<Rightarrow> if i < 0 then max (i + n) 0 else min i n)"

fun slice_indices :: "py_slice \<Rightarrow> int \<Rightarrow> int list" where
  "slice_indices (Slice a b c) n =
     py_range (slice_bound a 0 n) (slice_bound b n n) (case c of None \<Rightarrow> 1 | Some k \<Rightarrow> k)"

definition py_slice_list :: "py_slice \<Rightarrow> 'a list \<Rightarrow> 'a list" where
  "py_slice_list sl xs = map (\<lambda>i. xs ! nat i) (slice_indices sl (int (length xs)))"

text \<open>The same slice without its step: the whole pixel range of a segment.\<close>

fun unstrided :: "py_slice \<Rightarrow> py_slice" where
  "unstrided (Slice a b c) = Slice a b None"

subsection \<open>Segments\<close>

text \<open>
  \<^verbatim>\<open>_precompute_indices\<close> (pro) builds one pair \<^verbatim>\<open>(y slice, x slice)\<close> per LED:
  \<^verbatim>\<open>
  v_seg = self.height // NUM_LEDS_LEFT
  h_seg = self.width // NUM_LEDS_TOP
  ds = DOWNSAMPLE
  for i in range(NUM_LEDS_LEFT):
      y = self.height - (i + 1) * v_seg
      self.left_slices.append((slice(y, y + v_seg, ds), slice(None, None, ds)))
  for i in range(NUM_LEDS_TOP):
      x = i * h_seg
      self.top_slices.append((slice(None, None, ds), slice(x, x + h_seg, ds)))
  for i in range(NUM_LEDS_RIGHT):
      y = i * v_seg
      self.right_slices.append((slice(y, y + v_seg, ds), slice(None, None, ds)))
  \<close>
  \<^verbatim>\<open>capture_and_sample\<close> (baseline) uses the same bounds with no step:
  \<^verbatim>\<open>img[y:y+seg_h, :, [2,1,0]]\<close> and \<^verbatim>\<open>img[:, x:x+seg_w, [2,1,0]]\<close>, with
  \<^verbatim>\<open>seg_h = self.height // NUM_LEDS_LEFT\<close> for both vertical edges. The step is the
  argument \<open>ds\<close> here: \<open>Some DOWNSAMPLE\<close> for pro, \<open>None\<close> for the baseline.
\<close>

definition left_slices :: "int option \<Rightarrow> ScreenCapture \<Rightarrow> (py_slice \<times> py_slice) list" where
  "left_slices ds self =
     (let v_seg = height self div NUM_LEDS_LEFT
      in map (\<lambda>i. let y = height self - (i + 1) * v_seg
                  in (Slice (Some y) (Some (y + v_seg)) ds, Slice None None ds))
           [0..NUM_LEDS_LEFT - 1])"

definition top_slices :: "int option \<Rightarrow> ScreenCapture \<Rightarrow> (py_slice \<times> py_slice) list" where
  "top_slices ds self =
     (let h_seg = width self div NUM_LEDS_TOP
      in map (\<lambda>i. let x = i * h_seg
                  in (Slice None None ds, Slice (Some x) (Some (x + h_seg)) ds))
           [0..NUM_LEDS_TOP - 1])"

definition right_slices :: "int option \<Rightarrow> ScreenCapture \<Rightarrow> (py_slice \<times> py_slice) list" where
  "right_slices ds self =
     (let v_seg = height self div NUM_LEDS_LEFT
      in map (\<lambda>i. let y = i * v_seg
                  in (Slice (Some y) (Some (y + v_seg)) ds, Slice None None ds))
           [0..NUM_LEDS_RIGHT - 1])"

subsection \<open>Sampling\<close>

text \<open>
  A captured image has the shape \<open>(height, width, 4)\<close>: rows of pixels, each pixel the
  bytes B, G, R and a fourth one. For one LED,
  \<^verbatim>\<open>
  segment = img[ys, xs, :3]
  colors[k] = segment[:, :, [2,1,0]].mean(axis=(0,1))
  \<close>
  selects rows and columns, reorders to R, G, B and averages each channel over the
  selected pixels. The mean of no pixels is \<^verbatim>\<open>NaN\<close> in \<^verbatim>\<open>numpy\<close>; it is \<open>None\<close> here.
\<close>

type_synonym pixel = "byte \<times> byte \<times> byte \<times> byte"

type_synonym image = "pixel list list"

definition segment_rgb :: "image \<Rightarrow> py_slice \<times> py_slice \<Rightarrow> rgb8 list" where
  "segment_rgb img sl =
     (case sl of (ys, xs) \<Rightarrow>
        concat (map (\<lambda>row. map (\<lambda>(b, g, r, x). (r, g, b)) (py_slice_list xs row))
                    (py_slice_list ys img)))"

definition mean_rgb :: "rgb8 list \<Rightarrow> rgbf option" where
  "mean_rgb ps =
     (if ps = [] then None
      else Some (sum_list (map (\<lambda>(r, g, b). real (unat r)) ps) / real (length ps),
                 sum_list (map (\<lambda>(r, g, b). real (unat g)) ps) / real (length ps),
                 sum_list (map (\<lambda>(r, g, b). real (unat b)) ps) / real (length ps)))"

text \<open>
  One of the three loops \<^verbatim>\<open>for i, (ys, xs) in enumerate(slices): colors[base + i] = ...\<close>;
  \<open>k\<close> is \<^verbatim>\<open>base + i\<close>.
\<close>

fun store_segments ::
  "image \<Rightarrow> int \<Rightarrow> (py_slice \<times> py_slice) list \<Rightarrow> rgbf option list
     \<Rightarrow> py_error + rgbf option list" where
  "store_segments img k [] colors = Inr colors"
| "store_segments img k (sl # sls) colors =
     (case py_setitem colors k (mean_rgb (segment_rgb img sl)) of
        Inl e \<Rightarrow> Inl e
      | Inr colors' \<Rightarrow> store_segments img (k + 1) sls colors')"

text \<open>
  \<^verbatim>\<open>sample_colors_vectorized\<close> (pro) starts from \<^verbatim>\<open>np.empty((NUM_LEDS_TOTAL, 3))\<close>, whose
  contents are arbitrary; \<^verbatim>\<open>capture_and_sample\<close> (baseline) starts from the buffer
  \<^verbatim>\<open>self.colors\<close> with the values of the frame before. \<open>junk\<close> stands for those
  contents. The three loops write at \<^verbatim>\<open>i\<close>, at \<^verbatim>\<open>NUM_LEDS_LEFT + i\<close> and at
  \<^verbatim>\<open>NUM_LEDS_LEFT + NUM_LEDS_TOP + i\<close>.
\<close>

definition sample_edges ::
  "int option \<Rightarrow> ScreenCapture \<Rightarrow> image \<Rightarrow> image \<Rightarrow> image \<Rightarrow> (nat \<Rightarrow> rgbf option)
     \<Rightarrow> py_error + rgbf option list" where
  "sample_edges ds self left_img top_img right_img junk =
     (let colors = map junk [0..<nat NUM_LEDS_TOTAL]
      in case store_segments left_img 0 (left_slices ds self) colors of
           Inl e \<Rightarrow> Inl e
         | Inr colors1 \<Rightarrow>
             (case store_segments top_img NUM_LEDS_LEFT (top_slices ds self) colors1 of
                Inl e \<Rightarrow> Inl e
              | Inr colors2 \<Rightarrow>
                  store_segments right_img (NUM_LEDS_LEFT + NUM_LEDS_TOP)
                    (right_slices ds self) colors2))"

definition sample_colors_vectorized ::
  "ScreenCapture \<Rightarrow> image \<Rightarrow> image \<Rightarrow> image \<Rightarrow> (nat \<Rightarrow> rgbf option)
     \<Rightarrow> py_error + rgbf option list" where
  "sample_colors_vectorized = sample_edges (Some DOWNSAMPLE)"

definition capture_and_sample ::
  "ScreenCapture \<Rightarrow> image \<Rightarrow> image \<Rightarrow> image \<Rightarrow> (nat \<Rightarrow> rgbf option)
     \<Rightarrow> py_error + rgbf option list" where
  "capture_and_sample = sample_edges None"

section \<open>Colour processing\<close>

text \<open>
  \<^verbatim>\<open>
  gray = colors.mean(axis=1, keepdims=True)
  colors = gray + (colors - gray) * self.saturation
  \<close>
  on one row; \<open>row_mean\<close> is the row's entry of \<^verbatim>\<open>gray\<close>.
\<close>

definition row_mean :: "rgbf \<Rightarrow> real" where
  "row_mean c = (case c of (r, g, b) \<Rightarrow> (r + g + b) / 3)"

definition saturate_px :: "real \<Rightarrow> rgbf \<Rightarrow> rgbf" where
  "saturate_px s c =
     (case c of (r, g, b) \<Rightarrow>
        let gray = row_mean c
        in (gray + (r - gray) * s, gray + (g - gray) * s, gray + (b - gray) * s))"

text \<open>\<^verbatim>\<open>colors *= self.brightness\<close> on one row.\<close>

definition scale_px :: "real \<Rightarrow> rgbf \<Rightarrow> rgbf" where
  "scale_px k c = (case c of (r, g, b) \<Rightarrow> (r * k, g * k, b * k))"

text \<open>\<^verbatim>\<open>self.prev_colors + alpha * (colors - self.prev_colors)\<close> (pro) on one row.\<close>

definition ema_px :: "real \<Rightarrow> rgbf \<Rightarrow> rgbf \<Rightarrow> rgbf" where
  "ema_px alpha p c =
     (case p of (pr, pg, pb) \<Rightarrow> case c of (cr, cg, cb) \<Rightarrow>
        (pr + alpha * (cr - pr), pg + alpha * (cg - pg), pb + alpha * (cb - pb)))"

text \<open>\<^verbatim>\<open>self.prev_colors * (1 - alpha) + colors * alpha\<close> (baseline) on one row.\<close>

definition lerp_px :: "real \<Rightarrow> rgbf \<Rightarrow> rgbf \<Rightarrow> rgbf" where
  "lerp_px alpha p c =
     (case p of (pr, pg, pb) \<Rightarrow> case c of (cr, cg, cb) \<Rightarrow>
        (pr * (1 - alpha) + cr * alpha, pg * (1 - alpha) + cg * alpha,
         pb * (1 - alpha) + cb * alpha))"

text \<open>\<^verbatim>\<open>np.clip(x, 0, 255)\<close> is \<^verbatim>\<open>minimum(maximum(x, 0), 255)\<close>.\<close>

definition np_clip :: "real \<Rightarrow> real" where
  "np_clip x = min (max x 0) 255"

text \<open>
  \<^verbatim>\<open>astype(np.uint8)\<close> of a float drops the fraction (rounding towards zero); it is only
  applied to clipped values, which lie in \<open>[0, 255]\<close>.
\<close>

definition astype_uint8 :: "real \<Rightarrow> byte" where
  "astype_uint8 x = word_of_int (if 0 \<le> x then \<lfloor>x\<rfloor> else \<lceil>x\<rceil>)"

definition clip_convert_px :: "rgbf \<Rightarrow> rgb8" where
  "clip_convert_px c =
     (case c of (r, g, b) \<Rightarrow>
        (astype_uint8 (np_clip r), astype_uint8 (np_clip g), astype_uint8 (np_clip b)))"

subsection \<open>\<^verbatim>\<open>ColorProcessor\<close> (pro)\<close>

record ColorProcessor =
  brightness :: real
  saturation :: real
  smoothing :: real
  prev_colors :: "rgbf list option"

text \<open>\<^verbatim>\<open>ColorProcessor.__init__\<close>: \<^verbatim>\<open>self.prev_colors = None\<close>.\<close>

definition ColorProcessor_init :: "real \<Rightarrow> real \<Rightarrow> real \<Rightarrow> ColorProcessor" where
  "ColorProcessor_init b s a =
     \<lparr>brightness = b, saturation = s, smoothing = a, prev_colors = None\<rparr>"

text \<open>
  \<^verbatim>\<open>
  def process(self, colors):
      if self.saturation != 1.0:
          gray = colors.mean(axis=1, keepdims=True)
          colors = gray + (colors - gray) * self.saturation
      if self.brightness != 1.0:
          colors *= self.brightness
      if self.prev_colors is None:
          self.prev_colors = colors.copy()
      else:
          alpha = self.smoothing
          colors = self.prev_colors + alpha * (colors - self.prev_colors)
          np.copyto(self.prev_colors, colors)
      np.clip(colors, 0, 255, out=colors)
      np.copyto(self.output, colors.astype(np.uint8))
      return self.output
  \<close>
  The clipping is in place on \<^verbatim>\<open>colors\<close>, after \<^verbatim>\<open>prev_colors\<close> took a copy, so the state
  keeps the unclipped values. The sample and the state hold one row per LED; \<open>map2\<close>
  pairs the rows of equal index.
\<close>

definition ColorProcessor_process ::
  "ColorProcessor \<Rightarrow> rgbf list \<Rightarrow> rgb8 list \<times> ColorProcessor" where
  "ColorProcessor_process self colors0 =
     (let colors1 = (if saturation self \<noteq> 1 then map (saturate_px (saturation self)) colors0
                     else colors0);
          colors2 = (if brightness self \<noteq> 1 then map (scale_px (brightness self)) colors1
                     else colors1);
          colors3 = (case prev_colors self of
                       None \<Rightarrow> colors2
                     | Some prev \<Rightarrow> map2 (ema_px (smoothing self)) prev colors2)
      in (map clip_convert_px colors3, self\<lparr>prev_colors := Some colors3\<rparr>))"

subsection \<open>\<^verbatim>\<open>Ambilight.process_colors\<close> (baseline)\<close>

text \<open>
  The fields of \<^verbatim>\<open>Ambilight\<close> that processing and sending touch. \<^verbatim>\<open>__init__\<close> sets
  \<^verbatim>\<open>prev_colors\<close> to zeros and \<^verbatim>\<open>first_frame\<close> to \<^verbatim>\<open>True\<close>. In both variants the
  brightness factor \<open>b\<close> is the command line's \<^verbatim>\<open>brightness / 255.0\<close>.
\<close>

record Ambilight =
  amb_brightness :: real
  amb_saturation :: real
  amb_smoothing :: real
  amb_prev_colors :: "rgbf list"
  first_frame :: bool
  amb_running :: bool
  amb_serial :: serial_port

definition Ambilight_init :: "real \<Rightarrow> real \<Rightarrow> real \<Rightarrow> serial_port \<Rightarrow> Ambilight" where
  "Ambilight_init b s a ser =
     \<lparr>amb_brightness = b, amb_saturation = s, amb_smoothing = a,
      amb_prev_colors = replicate (nat NUM_LEDS_TOTAL) (0, 0, 0),
      first_frame = True, amb_running = False, amb_serial = ser\<rparr>"

text \<open>
  \<^verbatim>\<open>
  def process_colors(self, colors):
      if self.saturation != 1.0:
          gray = colors.mean(axis=1, keepdims=True)
          colors = gray + (colors - gray) * self.saturation
      if self.brightness != 1.0:
          colors *= self.brightness
      if self.first_frame:
          self.prev_colors[:] = colors
          self.first_frame = False
      else:
          alpha = self.smoothing
          colors = self.prev_colors * (1 - alpha) + colors * alpha
          self.prev_colors[:] = colors
      np.clip(colors, 0, 255, out=colors)
      self.output[:] = colors.astype(np.uint8)
      return self.output
  \<close>
\<close>

definition Ambilight_process_colors ::
  "Ambilight \<Rightarrow> rgbf list \<Rightarrow> rgb8 list \<times> Ambilight" where
  "Ambilight_process_colors self colors0 =
     (let colors1 = (if amb_saturation self \<noteq> 1
                     then map (saturate_px (amb_saturation self)) colors0 else colors0);
          colors2 = (if amb_brightness self \<noteq> 1
                     then map (scale_px (amb_brightness self)) colors1 else colors1);
          colors3 = (if first_frame self then colors2
                     else map2 (lerp_px (amb_smoothing self)) (amb_prev_colors self) colors2)
      in (map clip_convert_px colors3,
          self\<lparr>amb_prev_colors := colors3, first_frame := False\<rparr>))"

subsection \<open>\<^verbatim>\<open>Ambilight.send\<close> and \<^verbatim>\<open>Ambilight.cleanup\<close> (baseline)\<close>

text \<open>
  \<^verbatim>\<open>
  def send(self, colors):
      try:
          self.serial.write(self.header + colors.tobytes())
      except:
          self.running = False
  \<close>
  There is no \<^verbatim>\<open>return\<close> statement: the call returns \<^verbatim>\<open>None\<close> on both paths.
\<close>

definition Ambilight_send ::
  "Ambilight \<Rightarrow> rgb8 list \<Rightarrow> write_outcome \<Rightarrow> py_value \<times> Ambilight" where
  "Ambilight_send self colors w =
     (case w of
        WriteOk \<Rightarrow>
          (PyNone, self\<lparr>amb_serial := (amb_serial self)
                     \<lparr>written := written (amb_serial self) @ [header @ tobytes colors]\<rparr>\<rparr>)
      | WriteRaises \<Rightarrow> (PyNone, self\<lparr>amb_running := False\<rparr>))"

text \<open>
  \<^verbatim>\<open>
  def cleanup(self):
      self.running = False
      if self.serial and self.serial.is_open:
          self.send(np.zeros((NUM_LEDS_TOTAL, 3), dtype=np.uint8))
          time.sleep(0.05)
          self.serial.close()
  \<close>
\<close>

definition Ambilight_cleanup :: "Ambilight \<Rightarrow> write_outcome \<Rightarrow> Ambilight" where
  "Ambilight_cleanup self w =
     (let self1 = self\<lparr>amb_running := False\<rparr>
      in if is_open (amb_serial self1)
         then (case Ambilight_send self1 black w of
                 (r, self2) \<Rightarrow> self2\<lparr>amb_serial := (amb_serial self2)\<lparr>is_open := False\<rparr>\<rparr>)
         else self1)"

section \<open>The main loops\<close>

text \<open>
  A loop runs until its condition fails, a \<^verbatim>\<open>break\<close>, or \<^verbatim>\<open>KeyboardInterrupt\<close>; how
  long that takes is up to the environment. The environment is a list of events, one per
  iteration; a loop that is still running when the list ends has no result (\<open>None\<close>).
\<close>

datatype loop_exit = LoopEnded | SerialError | Interrupted

subsection \<open>\<^verbatim>\<open>AmbilightPro.run\<close>: the consumer loop\<close>

text \<open>
  \<open>Poll r w\<close>: in this iteration \<^verbatim>\<open>self.color_buffer.get()\<close> returns \<open>r\<close> (what the
  capture thread has published decides it) and a serial write, if the iteration gets to
  one, has the outcome \<open>w\<close>.
\<close>

datatype pro_event = Poll "rgbf list option" write_outcome | KeyboardInterrupt

record AmbilightPro =
  running :: bool
  processor :: ColorProcessor
  sender :: serial_port

text \<open>
  \<^verbatim>\<open>
  while self.running:
      colors = self.color_buffer.get()
      if colors is None:
          time.sleep(0.001)
          continue
      output = self.processor.process(colors)
      if not self.sender.send(output):
          print("\nSerial error!")
          break
      ...   # statistics, sleep for the rest of the frame time
  \<close>
\<close>

fun consumer_loop :: "AmbilightPro \<Rightarrow> pro_event list \<Rightarrow> (loop_exit \<times> AmbilightPro) option" where
  "consumer_loop self [] = (if running self then None else Some (LoopEnded, self))"
| "consumer_loop self (ev # evs) =
     (if \<not> running self then Some (LoopEnded, self)
      else (case ev of
              KeyboardInterrupt \<Rightarrow> Some (Interrupted, self)
            | Poll None w \<Rightarrow> consumer_loop self evs
            | Poll (Some colors) w \<Rightarrow>
                (case ColorProcessor_process (processor self) colors of
                   (output, proc') \<Rightarrow>
                     (case SerialSender_send (sender self) output w of
                        (ok, ser') \<Rightarrow>
                          if \<not> py_truthy ok
                          then Some (SerialError, self\<lparr>processor := proc', sender := ser'\<rparr>)
                          else consumer_loop (self\<lparr>processor := proc', sender := ser'\<rparr>) evs))))"

text \<open>
  \<^verbatim>\<open>cleanup\<close>: \<^verbatim>\<open>self.running = False\<close>, join the capture thread, then
  \<^verbatim>\<open>self.sender.close()\<close>. \<^verbatim>\<open>run\<close> sets \<^verbatim>\<open>self.running = True\<close>, runs the loop inside
  \<^verbatim>\<open>try\<close> and calls \<^verbatim>\<open>cleanup\<close> in \<^verbatim>\<open>finally\<close>; \<open>w_close\<close> is the outcome of the write
  that \<^verbatim>\<open>close\<close> attempts.
\<close>

definition AmbilightPro_cleanup :: "AmbilightPro \<Rightarrow> write_outcome \<Rightarrow> AmbilightPro" where
  "AmbilightPro_cleanup self w =
     self\<lparr>running := False, sender := SerialSender_close (sender self) w\<rparr>"

definition AmbilightPro_run ::
  "AmbilightPro \<Rightarrow> pro_event list \<Rightarrow> write_outcome \<Rightarrow> (loop_exit \<times> AmbilightPro) option" where
  "AmbilightPro_run self evs w_close =
     (case consumer_loop (self\<lparr>running := True\<rparr>) evs of
        None \<Rightarrow> None
      | Some (why, self') \<Rightarrow> Some (why, AmbilightPro_cleanup self' w_close))"

subsection \<open>\<^verbatim>\<open>Ambilight.run\<close> (baseline)\<close>

text \<open>
  \<open>Frame colors w\<close>: this iteration's \<^verbatim>\<open>capture_and_sample\<close> yields \<open>colors\<close> and the
  serial write has the outcome \<open>w\<close>.
  \<^verbatim>\<open>
  while self.running:
      colors = self.capture_and_sample()
      colors = self.process_colors(colors)
      self.send(colors)
      ...   # statistics, sleep for the rest of the frame time
  \<close>
\<close>

datatype amb_event = Frame "rgbf list" write_outcome | AmbKeyboardInterrupt

fun Ambilight_loop :: "Ambilight \<Rightarrow> amb_event list \<Rightarrow> (loop_exit \<times> Ambilight) option" where
  "Ambilight_loop self [] = (if amb_running self then None else Some (LoopEnded, self))"
| "Ambilight_loop self (ev # evs) =
     (if \<not> amb_running self then Some (LoopEnded, self)
      else (case ev of
              AmbKeyboardInterrupt \<Rightarrow> Some (Interrupted, self)
            | Frame colors w \<Rightarrow>
                (case Ambilight_process_colors self colors of
                   (output, self1) \<Rightarrow>
                     (case Ambilight_send self1 output w of
                        (r, self2) \<Rightarrow> Ambilight_loop self2 evs))))"

definition Ambilight_run ::
  "Ambilight \<Rightarrow> amb_event list \<Rightarrow> write_outcome \<Rightarrow> (loop_exit \<times> Ambilight) option" where
  "Ambilight_run self evs w_close =
     (case Ambilight_loop (self\<lparr>amb_running := True\<rparr>) evs of
        None \<Rightarrow> None
      | Some (why, self') \<Rightarrow> Some (why, Ambilight_cleanup self' w_close))"

section \<open>Serial port selection\<close>

text \<open>
  An entry of \<^verbatim>\<open>serial.tools.list_ports.comports()\<close>, of which the code reads \<^verbatim>\<open>device\<close>
  and \<^verbatim>\<open>description\<close>. \<^verbatim>\<open>k in s\<close> on strings is \<open>sublist k s\<close>: \<open>k\<close> occurs in \<open>s\<close> as
  a contiguous run of characters.
\<close>

record port_info =
  device :: string
  description :: string

text \<open>
  \<^verbatim>\<open>SerialSender._auto_detect\<close> (pro):
  \<^verbatim>\<open>
  ports = list(serial.tools.list_ports.comports())
  keywords = ['Arduino', 'CH340', 'USB-SERIAL', 'ttyUSB', 'ttyACM']
  for p in ports:
      if any(k in p.description or k in p.device for k in keywords):
          return p.device
  if ports:
      return ports[0].device
  print("No serial ports found!")
  sys.exit(1)
  \<close>
\<close>

definition pro_keywords :: "string list" where
  "pro_keywords = [''Arduino'', ''CH340'', ''USB-SERIAL'', ''ttyUSB'', ''ttyACM'']"

definition pro_match :: "port_info \<Rightarrow> bool" where
  "pro_match p =
     list_ex (\<lambda>k. sublist k (description p) \<or> sublist k (device p)) pro_keywords"

definition SerialSender_auto_detect :: "port_info list \<Rightarrow> py_error + string" where
  "SerialSender_auto_detect ports =
     (case find pro_match ports of
        Some p \<Rightarrow> Inr (device p)
      | None \<Rightarrow> (case ports of p0 # rest \<Rightarrow> Inr (device p0) | [] \<Rightarrow> Inl (SystemExit 1)))"



text \<open>
  \<^verbatim>\<open>Ambilight.connect_serial\<close> (baseline) detects inline:
  \<^verbatim>\<open>
  if port is None:
      ports = list(serial.tools.list_ports.comports())
      for p in ports:
          if any(x in p.description for x in
                 ['Arduino', 'CH340', 'USB-SERIAL', 'USB Serial']):
              port = p.device
              break
      if port is None and ports:
          port = ports[0].device
      if port is None:
          print("No serial ports found!")
          sys.exit(1)
  ...
  ser = serial.Serial(port, BAUD_RATE, timeout=1)
  \<close>
\<close>

definition baseline_keywords :: "string list" where
  "baseline_keywords = [''Arduino'', ''CH340'', ''USB-SERIAL'', ''USB Serial'']"

definition baseline_match :: "port_info \<Rightarrow> bool" where
  "baseline_match p = list_ex (\<lambda>x. sublist x (description p)) baseline_keywords"

definition Ambilight_detect :: "port_info list \<Rightarrow> py_error + string" where
  "Ambilight_detect ports =
     (let port1 = (case find baseline_match ports of
                     Some p \<Rightarrow> Some (device p)
                   | None \<Rightarrow> None);
          port2 = (if port1 = None \<and> ports \<noteq> [] then Some (device (hd ports)) else port1)
      in case port2 of None \<Rightarrow> Inl (SystemExit 1) | Some d \<Rightarrow> Inr d)"


section \<open>Command line\<close>






section \<open>Theorems\<close>

subsection \<open>Wire frame\<close>






subsection \<open>RingBuffer\<close>

lemma rb_inv_init: "1 \<le> n \<Longrightarrow> rb_inv (RingBuffer_init n z)"
  by (simp add: rb_inv_def RingBuffer_init_def)

lemma rb_size_init: "rb_size (RingBuffer_init n z) = n"
  by (simp add: RingBuffer_init_def)

lemma rb_put_inv:
  "rb_inv rb \<Longrightarrow>
   \<exists>rb'. RingBuffer_put rb d = Inr rb' \<and> rb_inv rb' \<and> rb_size rb' = rb_size rb"
  by (auto simp: rb_inv_def RingBuffer_put_def py_setitem_def py_index_def py_mod_def Let_def)

lemma rb_get_inv:
  "rb_inv rb \<Longrightarrow>
   \<exists>r rb'. RingBuffer_get rb = Inr (r, rb') \<and> rb_inv rb' \<and> rb_size rb' = rb_size rb \<and>
     (r = None \<longleftrightarrow> count rb = 0) \<and> count rb' = 0"
  by (auto simp: rb_inv_def RingBuffer_get_def py_getitem_def py_index_def py_mod_def Let_def)

lemma rb_get_empty: "count rb = 0 \<Longrightarrow> RingBuffer_get rb = Inr (None, rb)"
  by (simp add: RingBuffer_get_def)

lemma run_ops_inv:
  "rb_inv rb \<Longrightarrow> \<exists>rb'. run_ops rb ops = Inr rb' \<and> rb_inv rb' \<and> rb_size rb' = rb_size rb"
proof (induction ops arbitrary: rb)
  case Nil
  then show ?case by simp
next
  case (Cons op ops)
  show ?case
  proof (cases op)
    case (Put d)
    from rb_put_inv [OF Cons.prems, of d] obtain rb1 where
      1: "RingBuffer_put rb d = Inr rb1" "rb_inv rb1" "rb_size rb1 = rb_size rb" by blast
    from Cons.IH [OF 1(2)] 1 Put show ?thesis by auto
  next
    case Get
    from rb_get_inv [OF Cons.prems] obtain r rb1 where
      1: "RingBuffer_get rb = Inr (r, rb1)" "rb_inv rb1" "rb_size rb1 = rb_size rb" by blast
    from Cons.IH [OF 1(2)] 1 Get show ?thesis by auto
  qed
qed

text \<open>
  C2. On an exchange of capacity \<open>n\<close> with \<open>2 \<le> n < 4\<close> that starts empty, four
  \<^verbatim>\<open>put\<close> calls with \<open>F1\<close>, \<open>F2\<close>, \<open>F3\<close>, \<open>F4\<close> and no \<^verbatim>\<open>get\<close> in between raise
  nothing; the next \<^verbatim>\<open>get\<close> returns \<open>F4\<close> and the \<^verbatim>\<open>get\<close> right after it returns
  \<^verbatim>\<open>None\<close>.
\<close>

theorem exchange_latest_wins:
  assumes "2 \<le> n" and "n < 4"
  shows "\<exists>rb rb'. run_ops (RingBuffer_init n z) [Put F1, Put F2, Put F3, Put F4] = Inr rb \<and>
           RingBuffer_get rb = Inr (Some F4, rb') \<and>
           RingBuffer_get rb' = Inr (None, rb')"
proof -
  from assms consider "n = 2" | "n = 3" by linarith
  then show ?thesis
  proof cases
    case 1
    show ?thesis unfolding 1
      by (simp add: RingBuffer_init_def RingBuffer_put_def RingBuffer_get_def py_setitem_def
          py_getitem_def py_index_def py_mod_def Let_def numeral_2_eq_2)
  next
    case 2
    show ?thesis unfolding 2
      by (simp add: RingBuffer_init_def RingBuffer_put_def RingBuffer_get_def py_setitem_def
          py_getitem_def py_index_def py_mod_def Let_def numeral_3_eq_3)
  qed
qed

theorem exchange_latest_wins_triple_buffer:
  "(2::int) \<le> BUFFER_SIZE \<and> BUFFER_SIZE < 4 \<and>
   (\<exists>rb rb'. run_ops (RingBuffer_init BUFFER_SIZE [(0::real, 0::real, 0::real)])
                [Put [(1, 1, 1)], Put [(2, 2, 2)], Put [(3, 3, 3)], Put [(4, 4, 4)]] = Inr rb \<and>
      RingBuffer_get rb = Inr (Some [(4, 4, 4)], rb') \<and>
      RingBuffer_get rb' = Inr (None, rb'))"
proof -
  have b: "(2::int) \<le> BUFFER_SIZE" "BUFFER_SIZE < 4" by (simp_all add: BUFFER_SIZE_def)
  from exchange_latest_wins [OF b, of "[(0, 0, 0)]" "[(1, 1, 1)]" "[(2, 2, 2)]" "[(3, 3, 3)]"
      "[(4, 4, 4)]"] b
  show ?thesis by simp
qed

text \<open>
  C9. For a buffer created with \<open>size \<ge> 1\<close>, every finite sequence of \<^verbatim>\<open>put\<close> and
  \<^verbatim>\<open>get\<close> calls raises nothing and ends in a state with \<open>0 \<le> count \<le> size\<close> and both
  indices in \<open>[0, size)\<close>. In that state \<^verbatim>\<open>get\<close> returns \<^verbatim>\<open>None\<close> exactly when
  \<open>count = 0\<close>, it leaves \<open>count = 0\<close>, and a second \<^verbatim>\<open>get\<close> right after it returns
  \<^verbatim>\<open>None\<close>.
\<close>

theorem ring_buffer_invariant:
  assumes "1 \<le> n"
  shows "\<exists>rb r rb'. run_ops (RingBuffer_init n z) ops = Inr rb \<and>
           rb_size rb = n \<and> 0 \<le> count rb \<and> count rb \<le> rb_size rb \<and>
           0 \<le> write_idx rb \<and> write_idx rb < rb_size rb \<and>
           0 \<le> read_idx rb \<and> read_idx rb < rb_size rb \<and>
           RingBuffer_get rb = Inr (r, rb') \<and> (r = None \<longleftrightarrow> count rb = 0) \<and>
           count rb' = 0 \<and> RingBuffer_get rb' = Inr (None, rb')"
proof -
  from run_ops_inv [OF rb_inv_init [OF assms], of z ops] obtain rb where
    rb: "run_ops (RingBuffer_init n z) ops = Inr rb" "rb_inv rb" "rb_size rb = n"
    by (auto simp: rb_size_init)
  from rb_get_inv [OF rb(2)] obtain r rb' where
    g: "RingBuffer_get rb = Inr (r, rb')" "(r = None \<longleftrightarrow> count rb = 0)" "count rb' = 0"
    by blast
  from g(3) have "RingBuffer_get rb' = Inr (None, rb')" by (rule rb_get_empty)
  with rb g show ?thesis unfolding rb_inv_def by blast
qed

theorem ring_buffer_invariant_witness:
  "(1::int) \<le> 3 \<and>
   (\<exists>rb r rb'. run_ops (RingBuffer_init 3 (0::nat)) [Put 7, Get, Get, Put 8, Put 9] = Inr rb \<and>
      rb_size rb = 3 \<and> 0 \<le> count rb \<and> count rb \<le> rb_size rb \<and>
      0 \<le> write_idx rb \<and> write_idx rb < rb_size rb \<and>
      0 \<le> read_idx rb \<and> read_idx rb < rb_size rb \<and>
      RingBuffer_get rb = Inr (r, rb') \<and> (r = None \<longleftrightarrow> count rb = 0) \<and>
      count rb' = 0 \<and> RingBuffer_get rb' = Inr (None, rb'))"
proof -
  have h: "(1::int) \<le> 3" by simp
  from ring_buffer_invariant [OF h, of "0::nat" "[Put 7, Get, Get, Put 8, Put 9]"] h
  show ?thesis by blast
qed

subsection \<open>LED layout and segments\<close>

text \<open>
  Consecutive intervals of equal length \<open>s\<close> laid end to end, counted upwards from
  \<open>off\<close> and downwards from \<open>e\<close>.
\<close>

lemma tiles_fwd:
  assumes "0 \<le> s"
  shows "concat (map (\<lambda>i. [off + i * s .. off + i * s + s - 1]) [0..int n - 1])
           = [off..off + int n * s - 1]"
proof (induction n)
  case 0
  show ?case by simp
next
  case (Suc n)
  have 1: "[0..int (Suc n) - 1] = [0..int n - 1] @ [int n]"
    using upto_rec2 [of 0 "int n"] by simp
  have 2: "[off..off + int (Suc n) * s - 1]
             = [off..off + int n * s - 1] @ [off + int n * s..off + int n * s + s - 1]"
  proof (cases "s = 0")
    case True
    then show ?thesis by simp
  next
    case False
    with assms have "1 \<le> s" by simp
    then show ?thesis
      using upto_split1 [of off "off + int n * s" "off + int (Suc n) * s - 1"] assms
      by (simp add: algebra_simps)
  qed
  show ?case unfolding 1 2 using Suc.IH by simp
qed

lemma tiles_rev:
  assumes "0 \<le> s"
  shows "concat (map (\<lambda>i. [e - (i + 1) * s .. e - (i + 1) * s + s - 1]) (rev [0..int n - 1]))
           = [e - int n * s..e - 1]"
proof (induction n)
  case 0
  show ?case by simp
next
  case (Suc n)
  have 1: "rev [0..int (Suc n) - 1] = int n # rev [0..int n - 1]"
    using upto_rec2 [of 0 "int n"] by simp
  have 2: "[e - int (Suc n) * s..e - 1]
             = [e - int (Suc n) * s..e - int (Suc n) * s + s - 1] @ [e - int n * s..e - 1]"
  proof (cases "s = 0")
    case True
    then show ?thesis by simp
  next
    case False
    with assms have "1 \<le> s" by simp
    then show ?thesis
      using upto_split2 [of "e - int (Suc n) * s" "e - int n * s - 1" "e - 1"] assms
      by (simp add: algebra_simps)
  qed
  show ?case unfolding 1 2 using Suc.IH by (simp add: algebra_simps)
qed

lemma span_exact:
  assumes "0 \<le> a" "a \<le> b" "b \<le> n"
  shows "slice_indices (unstrided (Slice (Some a) (Some b) ds)) n = [a..b - 1]"
  using assms by (simp add: slice_bound_def py_range_def)

lemma store_segments_ok:
  "0 \<le> k \<Longrightarrow> k + int (length sls) \<le> int (length colors) \<Longrightarrow>
   store_segments img k sls colors =
     Inr (take (nat k) colors @ map (\<lambda>sl. mean_rgb (segment_rgb img sl)) sls
          @ drop (nat k + length sls) colors)"
proof (induction sls arbitrary: k colors)
  case Nil
  then show ?case by simp
next
  case (Cons sl sls)
  let ?v = "mean_rgb (segment_rgb img sl)"
  from Cons.prems have k: "nat k < length colors" by simp
  then have set: "py_setitem colors k ?v = Inr (colors[nat k := ?v])"
    using Cons.prems by (simp add: py_setitem_def py_index_def)
  have "store_segments img (k + 1) sls (colors[nat k := ?v]) =
     Inr (take (nat (k + 1)) (colors[nat k := ?v]) @ map (\<lambda>sl. mean_rgb (segment_rgb img sl)) sls
          @ drop (nat (k + 1) + length sls) (colors[nat k := ?v]))"
    using Cons.prems by (intro Cons.IH) simp_all
  moreover have "nat (k + 1) = Suc (nat k)" using Cons.prems by simp
  moreover have "take (Suc (nat k)) (colors[nat k := ?v]) = take (nat k) colors @ [?v]"
    using k by (simp add: take_Suc_conv_app_nth)
  ultimately show ?case using set by simp
qed

lemma length_left_slices: "length (left_slices ds self) = 19"
  by (simp add: left_slices_def NUM_LEDS_LEFT_def Let_def)

lemma length_top_slices: "length (top_slices ds self) = 35"
  by (simp add: top_slices_def NUM_LEDS_TOP_def Let_def)

lemma length_right_slices: "length (right_slices ds self) = 19"
  by (simp add: right_slices_def NUM_LEDS_RIGHT_def Let_def)

lemma three_loops:
  assumes len0: "length c0 = 73"
  shows "(case store_segments left_img 0 (left_slices ds self) c0 of
           Inl e \<Rightarrow> Inl e
         | Inr colors1 \<Rightarrow>
             (case store_segments top_img NUM_LEDS_LEFT (top_slices ds self) colors1 of
                Inl e \<Rightarrow> Inl e
              | Inr colors2 \<Rightarrow>
                  store_segments right_img (NUM_LEDS_LEFT + NUM_LEDS_TOP)
                    (right_slices ds self) colors2)) =
     Inr (map (\<lambda>sl. mean_rgb (segment_rgb left_img sl)) (left_slices ds self) @
          map (\<lambda>sl. mean_rgb (segment_rgb top_img sl)) (top_slices ds self) @
          map (\<lambda>sl. mean_rgb (segment_rgb right_img sl)) (right_slices ds self))"
proof -
  let ?L = "map (\<lambda>sl. mean_rgb (segment_rgb left_img sl)) (left_slices ds self)"
  let ?T = "map (\<lambda>sl. mean_rgb (segment_rgb top_img sl)) (top_slices ds self)"
  let ?R = "map (\<lambda>sl. mean_rgb (segment_rgb right_img sl)) (right_slices ds self)"
  have 1: "store_segments left_img 0 (left_slices ds self) c0 = Inr (?L @ drop 19 c0)"
    using store_segments_ok [of 0 "left_slices ds self" c0 left_img] len0
    by (simp add: length_left_slices)
  have 2: "store_segments top_img NUM_LEDS_LEFT (top_slices ds self) (?L @ drop 19 c0)
      = Inr (?L @ ?T @ drop 54 c0)"
    using store_segments_ok [of NUM_LEDS_LEFT "top_slices ds self" "?L @ drop 19 c0" top_img] len0
    by (simp add: length_left_slices length_top_slices NUM_LEDS_LEFT_def)
  have 3: "store_segments right_img (NUM_LEDS_LEFT + NUM_LEDS_TOP) (right_slices ds self) (?L @ ?T @ drop 54 c0)
      = Inr (?L @ ?T @ ?R)"
    using store_segments_ok [of "NUM_LEDS_LEFT + NUM_LEDS_TOP" "right_slices ds self" "?L @ ?T @ drop 54 c0" right_img] len0
    by (simp add: length_left_slices length_top_slices length_right_slices NUM_LEDS_LEFT_def NUM_LEDS_TOP_def)
  show ?thesis
    by (simp add: 1 2 3)
qed

lemma sample_edges_layout:
  "sample_edges ds self left_img top_img right_img junk =
     Inr (map (\<lambda>sl. mean_rgb (segment_rgb left_img sl)) (left_slices ds self) @
          map (\<lambda>sl. mean_rgb (segment_rgb top_img sl)) (top_slices ds self) @
          map (\<lambda>sl. mean_rgb (segment_rgb right_img sl)) (right_slices ds self))"
proof -
  have "length (map junk [0..<nat NUM_LEDS_TOTAL]) = 73"
    by (simp add: NUM_LEDS_TOTAL_def NUM_LEDS_LEFT_def NUM_LEDS_TOP_def NUM_LEDS_RIGHT_def)
  then show ?thesis
    unfolding sample_edges_def Let_def by (rule three_loops)
qed

lemma left_tiles:
  assumes "0 \<le> height self"
  shows "concat (map (\<lambda>sl. slice_indices (unstrided (fst sl)) (height self)) (rev (left_slices ds self)))
      = [height self mod 19..height self - 1]"
proof -
  let ?h = "height self"
  let ?s = "?h div 19"
  have s: "0 \<le> ?s" using assms by simp
  have seg: "slice_indices (unstrided (Slice (Some (?h - (i + 1) * ?s)) (Some (?h - (i + 1) * ?s + ?s)) ds)) ?h
      = [?h - (i + 1) * ?s..?h - (i + 1) * ?s + ?s - 1]" if i: "0 \<le> i" "i \<le> 18" for i
  proof -
    have "(i + 1) * ?s \<le> 19 * ?s" using i s by (intro mult_right_mono) simp_all
    also have "\<dots> \<le> ?h" using assms by simp
    finally have 1: "0 \<le> ?h - (i + 1) * ?s" by simp
    have "0 \<le> i * ?s" using i s by simp
    then have 2: "?h - (i + 1) * ?s + ?s \<le> ?h" by (simp add: algebra_simps)
    show ?thesis using span_exact [OF 1 _ 2] s by simp
  qed
  have "map (\<lambda>sl. slice_indices (unstrided (fst sl)) ?h) (rev (left_slices ds self))
      = map (\<lambda>i. [?h - (i + 1) * ?s..?h - (i + 1) * ?s + ?s - 1]) (rev [0..18])"
    using seg by (simp add: left_slices_def Let_def NUM_LEDS_LEFT_def rev_map del: upto_rec_numeral)
  then have "concat (map (\<lambda>sl. slice_indices (unstrided (fst sl)) ?h) (rev (left_slices ds self)))
      = [?h - 19 * ?s..?h - 1]"
    using tiles_rev [OF s, of ?h 19] by (simp del: upto_rec_numeral)
  moreover have "?h - 19 * ?s = ?h mod 19"
    by (simp add: minus_mult_div_eq_mod)
  ultimately show ?thesis by simp
qed

lemma right_tiles:
  assumes "0 \<le> height self"
  shows "concat (map (\<lambda>sl. slice_indices (unstrided (fst sl)) (height self)) (right_slices ds self))
      = [0..height self - height self mod 19 - 1]"
proof -
  let ?h = "height self"
  let ?s = "?h div 19"
  have s: "0 \<le> ?s" using assms by simp
  have seg: "slice_indices (unstrided (Slice (Some (i * ?s)) (Some (i * ?s + ?s)) ds)) ?h
      = [0 + i * ?s..0 + i * ?s + ?s - 1]" if i: "0 \<le> i" "i \<le> 18" for i
  proof -
    have "(i + 1) * ?s \<le> 19 * ?s" using i s by (intro mult_right_mono) simp_all
    also have "\<dots> \<le> ?h" using assms by simp
    finally have 2: "i * ?s + ?s \<le> ?h" by (simp add: algebra_simps)
    have 1: "0 \<le> i * ?s" using i s by simp
    show ?thesis using span_exact [OF 1 _ 2] s by simp
  qed
  have "map (\<lambda>sl. slice_indices (unstrided (fst sl)) ?h) (right_slices ds self)
      = map (\<lambda>i. [0 + i * ?s..0 + i * ?s + ?s - 1]) [0..18]"
    using seg by (simp add: right_slices_def Let_def NUM_LEDS_LEFT_def NUM_LEDS_RIGHT_def del: upto_rec_numeral)
  then have "concat (map (\<lambda>sl. slice_indices (unstrided (fst sl)) ?h) (right_slices ds self))
      = [0..19 * ?s - 1]"
    using tiles_fwd [OF s, of 0 19] by (simp del: upto_rec_numeral)
  moreover have "19 * ?s = ?h - ?h mod 19"
    by presburger
  ultimately show ?thesis by simp
qed

lemma top_tiles:
  assumes "0 \<le> width self"
  shows "concat (map (\<lambda>sl. slice_indices (unstrided (snd sl)) (width self)) (top_slices ds self))
      = [0..width self - width self mod 35 - 1]"
proof -
  let ?w = "width self"
  let ?s = "?w div 35"
  have s: "0 \<le> ?s" using assms by simp
  have seg: "slice_indices (unstrided (Slice (Some (i * ?s)) (Some (i * ?s + ?s)) ds)) ?w
      = [0 + i * ?s..0 + i * ?s + ?s - 1]" if i: "0 \<le> i" "i \<le> 34" for i
  proof -
    have "(i + 1) * ?s \<le> 35 * ?s" using i s by (intro mult_right_mono) simp_all
    also have "\<dots> \<le> ?w" using assms by simp
    finally have 2: "i * ?s + ?s \<le> ?w" by (simp add: algebra_simps)
    have 1: "0 \<le> i * ?s" using i s by simp
    show ?thesis using span_exact [OF 1 _ 2] s by simp
  qed
  have "map (\<lambda>sl. slice_indices (unstrided (snd sl)) ?w) (top_slices ds self)
      = map (\<lambda>i. [0 + i * ?s..0 + i * ?s + ?s - 1]) [0..34]"
    using seg by (simp add: top_slices_def Let_def NUM_LEDS_TOP_def del: upto_rec_numeral)
  then have "concat (map (\<lambda>sl. slice_indices (unstrided (snd sl)) ?w) (top_slices ds self))
      = [0..35 * ?s - 1]"
    using tiles_fwd [OF s, of 0 35] by (simp del: upto_rec_numeral)
  moreover have "35 * ?s = ?w - ?w mod 35"
    by presburger
  ultimately show ?thesis by simp
qed


text \<open>
  A slice with a step selects indices inside the range it has without the step, so the
  pixels a segment is averaged over lie in the segment's range.
\<close>

lemma strided_within_segment:
  "set (slice_indices (Slice a b (Some k)) n)
     \<subseteq> set (slice_indices (unstrided (Slice a b (Some k))) n)"
  by (auto simp: py_range_def)

text \<open>
  The layout of the rows and the ranges of the segments, for any step \<open>ds\<close> of the
  slices.
\<close>

lemma sample_edges_layout_and_tiles:
  assumes "0 \<le> height self" and "0 \<le> width self"
  shows "(\<exists>colors. sample_edges ds self left_img top_img right_img junk = Inr colors \<and>
            length colors = 73 \<and>
            (\<forall>i<19. colors ! i = mean_rgb (segment_rgb left_img (left_slices ds self ! i))) \<and>
            (\<forall>i<35. colors ! (19 + i) = mean_rgb (segment_rgb top_img (top_slices ds self ! i))) \<and>
            (\<forall>i<19. colors ! (54 + i)
               = mean_rgb (segment_rgb right_img (right_slices ds self ! i)))) \<and>
         length (left_slices ds self) = 19 \<and> length (top_slices ds self) = 35 \<and>
         length (right_slices ds self) = 19 \<and>
         concat (map (\<lambda>sl. slice_indices (unstrided (fst sl)) (height self))
                     (rev (left_slices ds self)))
           = [height self mod 19..height self - 1] \<and>
         concat (map (\<lambda>sl. slice_indices (unstrided (snd sl)) (width self)) (top_slices ds self))
           = [0..width self - width self mod 35 - 1] \<and>
         concat (map (\<lambda>sl. slice_indices (unstrided (fst sl)) (height self))
                     (right_slices ds self))
           = [0..height self - height self mod 19 - 1]"
proof -
  let ?L = "map (\<lambda>sl. mean_rgb (segment_rgb left_img sl)) (left_slices ds self)"
  let ?T = "map (\<lambda>sl. mean_rgb (segment_rgb top_img sl)) (top_slices ds self)"
  let ?R = "map (\<lambda>sl. mean_rgb (segment_rgb right_img sl)) (right_slices ds self)"
  have run: "sample_edges ds self left_img top_img right_img junk = Inr (?L @ ?T @ ?R)"
    by (rule sample_edges_layout)
  have len: "length (?L @ ?T @ ?R) = 73"
    by (simp add: length_left_slices length_top_slices length_right_slices)
  have l: "(?L @ ?T @ ?R) ! i = mean_rgb (segment_rgb left_img (left_slices ds self ! i))"
    if "i < 19" for i
    using that by (simp add: nth_append length_left_slices)
  have t: "(?L @ ?T @ ?R) ! (19 + i) = mean_rgb (segment_rgb top_img (top_slices ds self ! i))"
    if "i < 35" for i
    using that by (simp add: nth_append length_left_slices length_top_slices)
  have r: "(?L @ ?T @ ?R) ! (54 + i) = mean_rgb (segment_rgb right_img (right_slices ds self ! i))"
    if "i < 19" for i
    using that
    by (simp add: nth_append length_left_slices length_top_slices length_right_slices)
  from run len l t r have layout:
    "\<exists>colors. sample_edges ds self left_img top_img right_img junk = Inr colors \<and>
       length colors = 73 \<and>
       (\<forall>i<19. colors ! i = mean_rgb (segment_rgb left_img (left_slices ds self ! i))) \<and>
       (\<forall>i<35. colors ! (19 + i) = mean_rgb (segment_rgb top_img (top_slices ds self ! i))) \<and>
       (\<forall>i<19. colors ! (54 + i)
          = mean_rgb (segment_rgb right_img (right_slices ds self ! i)))"
    by blast
  from layout left_tiles [OF assms(1)] top_tiles [OF assms(2)] right_tiles [OF assms(1)]
  show ?thesis
    by (simp only: length_left_slices length_top_slices length_right_slices simp_thms)
qed

text \<open>
  C4. For the edge counts 19, 35, 19 the sampler of either variant,
  \<^verbatim>\<open>sample_colors_vectorized\<close> with the step \<^verbatim>\<open>DOWNSAMPLE\<close> and \<^verbatim>\<open>capture_and_sample\<close>
  with no step, raises nothing and returns 73 rows: the rows at \<open>[0, 19)\<close> are the
  means of the left segments, those at \<open>[19, 54)\<close> of the top segments, those at
  \<open>[54, 73)\<close> of the right segments, whatever the buffer held before. On a monitor of
  height \<open>h\<close> and width \<open>w\<close>, the pixel ranges of the 19 left segments, read from the
  top of the screen down, are laid end to end and make up exactly \<open>[h mod 19, h)\<close>;
  those of the 35 top segments make up \<open>[0, w - w mod 35)\<close> and those of the 19 right
  segments \<open>[0, h - h mod 19)\<close>. So no two segments of an edge share a pixel, and what
  an edge leaves out is one run of \<open>h mod 19\<close> (or \<open>w mod 35\<close>) pixels at one end, empty
  when the count divides the length.
\<close>

theorem led_layout_and_segment_partition:
  assumes "0 \<le> height self" and "0 \<le> width self"
  shows "\<forall>(sampler, ds) \<in> {(sample_colors_vectorized, Some DOWNSAMPLE),
                            (capture_and_sample, None)}.
           (\<exists>colors. sampler self left_img top_img right_img junk = Inr colors \<and>
              length colors = 73 \<and>
              (\<forall>i<19. colors ! i = mean_rgb (segment_rgb left_img (left_slices ds self ! i))) \<and>
              (\<forall>i<35. colors ! (19 + i)
                 = mean_rgb (segment_rgb top_img (top_slices ds self ! i))) \<and>
              (\<forall>i<19. colors ! (54 + i)
                 = mean_rgb (segment_rgb right_img (right_slices ds self ! i)))) \<and>
           length (left_slices ds self) = 19 \<and> length (top_slices ds self) = 35 \<and>
           length (right_slices ds self) = 19 \<and>
           concat (map (\<lambda>sl. slice_indices (unstrided (fst sl)) (height self))
                       (rev (left_slices ds self)))
             = [height self mod 19..height self - 1] \<and>
           concat (map (\<lambda>sl. slice_indices (unstrided (snd sl)) (width self))
                       (top_slices ds self))
             = [0..width self - width self mod 35 - 1] \<and>
           concat (map (\<lambda>sl. slice_indices (unstrided (fst sl)) (height self))
                       (right_slices ds self))
             = [0..height self - height self mod 19 - 1]"
  using
    sample_edges_layout_and_tiles [OF assms, of "Some DOWNSAMPLE" left_img top_img right_img
      junk]
    sample_edges_layout_and_tiles [OF assms, of None left_img top_img right_img junk]
  unfolding sample_colors_vectorized_def capture_and_sample_def
  by (simp only: ball_simps prod.case simp_thms)

theorem led_layout_full_hd_witness:
  "0 \<le> height (edge_regions \<lparr>mon_left = 0, mon_top = 0, mon_width = 1920, mon_height = 1080\<rparr>
                  CAPTURE_DEPTH) \<and>
   0 \<le> width (edge_regions \<lparr>mon_left = 0, mon_top = 0, mon_width = 1920, mon_height = 1080\<rparr>
                 CAPTURE_DEPTH) \<and>
   (\<exists>colors. sample_colors_vectorized
                (edge_regions \<lparr>mon_left = 0, mon_top = 0, mon_width = 1920, mon_height = 1080\<rparr>
                   CAPTURE_DEPTH) [] [] [] (\<lambda>i. None) = Inr colors \<and>
      length colors = 73) \<and>
   (\<exists>colors. capture_and_sample
                (edge_regions \<lparr>mon_left = 0, mon_top = 0, mon_width = 1920, mon_height = 1080\<rparr>
                   CAPTURE_DEPTH) [] [] [] (\<lambda>i. None) = Inr colors \<and>
      length colors = 73) \<and>
   concat (map (\<lambda>sl. slice_indices (unstrided (fst sl)) 1080)
               (rev (left_slices (Some DOWNSAMPLE)
                  (edge_regions \<lparr>mon_left = 0, mon_top = 0, mon_width = 1920, mon_height = 1080\<rparr>
                     CAPTURE_DEPTH))))
     = [16..1079] \<and>
   concat (map (\<lambda>sl. slice_indices (unstrided (snd sl)) 1920)
               (top_slices None
                  (edge_regions \<lparr>mon_left = 0, mon_top = 0, mon_width = 1920, mon_height = 1080\<rparr>
                     CAPTURE_DEPTH)))
     = [0..1889] \<and>
   concat (map (\<lambda>sl. slice_indices (unstrided (fst sl)) 1080)
               (right_slices None
                  (edge_regions \<lparr>mon_left = 0, mon_top = 0, mon_width = 1920, mon_height = 1080\<rparr>
                     CAPTURE_DEPTH)))
     = [0..1063]"
proof -
  let ?sc = "edge_regions \<lparr>mon_left = 0, mon_top = 0, mon_width = 1920, mon_height = 1080\<rparr>
               CAPTURE_DEPTH"
  have h: "0 \<le> height ?sc" and w: "0 \<le> width ?sc"
    by (simp_all add: edge_regions_def)
  have hv: "height ?sc = 1080" and wv: "width ?sc = 1920"
    by (simp_all add: edge_regions_def)
  note t = led_layout_and_segment_partition [OF h w, of "[]" "[]" "[]" "\<lambda>i. None"]
  from t have pro: "\<exists>colors. sample_colors_vectorized ?sc [] [] [] (\<lambda>i. None) = Inr colors \<and>
             length colors = 73"
    and l: "concat (map (\<lambda>sl. slice_indices (unstrided (fst sl)) (height ?sc))
               (rev (left_slices (Some DOWNSAMPLE) ?sc))) = [height ?sc mod 19..height ?sc - 1]"
    by blast+
  from t have base: "\<exists>colors. capture_and_sample ?sc [] [] [] (\<lambda>i. None) = Inr colors \<and>
             length colors = 73"
    and t3: "concat (map (\<lambda>sl. slice_indices (unstrided (snd sl)) (width ?sc)) (top_slices None ?sc))
             = [0..width ?sc - width ?sc mod 35 - 1]"
    and r4: "concat (map (\<lambda>sl. slice_indices (unstrided (fst sl)) (height ?sc))
               (right_slices None ?sc)) = [0..height ?sc - height ?sc mod 19 - 1]"
    by blast+
  from l have l2: "concat (map (\<lambda>sl. slice_indices (unstrided (fst sl)) 1080)
               (rev (left_slices (Some DOWNSAMPLE) ?sc))) = [16..1079]"
    unfolding hv by (simp del: upto_rec_numeral)
  from t3 have t4: "concat (map (\<lambda>sl. slice_indices (unstrided (snd sl)) 1920) (top_slices None ?sc))
             = [0..1889]"
    unfolding wv by (simp del: upto_rec_numeral)
  from r4 have r5: "concat (map (\<lambda>sl. slice_indices (unstrided (fst sl)) 1080)
               (right_slices None ?sc)) = [0..1063]"
    unfolding hv by (simp del: upto_rec_numeral)
  from h w pro base l2 t4 r5 show ?thesis by blast
qed


subsection \<open>Colour processing\<close>

text \<open>With the factor 1 both transforms leave a row as it is, so the guards
  \<^verbatim>\<open>!= 1.0\<close> only skip work.\<close>

lemma saturate_px_one: "saturate_px 1 = (\<lambda>c. c)"
  by (rule ext) (simp add: saturate_px_def split: prod.splits)

lemma scale_px_one: "scale_px 1 = (\<lambda>c. c)"
  by (rule ext) (simp add: scale_px_def split: prod.splits)

text \<open>
  C3. The first call of \<^verbatim>\<open>process\<close> after \<^verbatim>\<open>__init__\<close> (pro: \<^verbatim>\<open>prev_colors is None\<close>;
  baseline: \<^verbatim>\<open>first_frame\<close> is set and \<^verbatim>\<open>prev_colors\<close> holds zeros) returns, for every
  sample and every smoothing coefficient, the sample after saturation and brightness,
  clipped and truncated; the coefficient and the zeros play no part. The smoothing state
  after the call is that transformed sample.
\<close>

theorem first_frame_not_blended:
  "ColorProcessor_process (ColorProcessor_init b s a) colors =
     (map clip_convert_px (map (scale_px b \<circ> saturate_px s) colors),
      (ColorProcessor_init b s a)\<lparr>prev_colors := Some (map (scale_px b \<circ> saturate_px s) colors)\<rparr>) \<and>
   Ambilight_process_colors (Ambilight_init b s a ser) colors =
     (map clip_convert_px (map (scale_px b \<circ> saturate_px s) colors),
      (Ambilight_init b s a ser)\<lparr>amb_prev_colors := map (scale_px b \<circ> saturate_px s) colors,
                                 first_frame := False\<rparr>)"
proof -
  have "ColorProcessor_process (ColorProcessor_init b s a) colors =
     (map clip_convert_px (map (scale_px b \<circ> saturate_px s) colors),
      (ColorProcessor_init b s a)\<lparr>prev_colors := Some (map (scale_px b \<circ> saturate_px s) colors)\<rparr>)"
    unfolding ColorProcessor_process_def Let_def
    by (simp add: ColorProcessor_init_def saturate_px_one scale_px_one comp_def)
  moreover have "Ambilight_process_colors (Ambilight_init b s a ser) colors =
     (map clip_convert_px (map (scale_px b \<circ> saturate_px s) colors),
      (Ambilight_init b s a ser)\<lparr>amb_prev_colors := map (scale_px b \<circ> saturate_px s) colors,
                                 first_frame := False\<rparr>)"
    unfolding Ambilight_process_colors_def Let_def
    by (simp add: Ambilight_init_def saturate_px_one scale_px_one comp_def)
  ultimately show ?thesis by simp
qed

text \<open>From the second call on the previous state is blended in.\<close>

lemma second_frame_blended:
  "ColorProcessor_process ((ColorProcessor_init 1 1 a)\<lparr>prev_colors := Some [p]\<rparr>) [c]
     = ([clip_convert_px (ema_px a p c)], (ColorProcessor_init 1 1 a)\<lparr>prev_colors := Some [ema_px a p c]\<rparr>)"
  by (simp add: ColorProcessor_process_def ColorProcessor_init_def)

text \<open>
  C5, as the code computes it. For a frame of 73 rows \<open>(200, 100, 100)\<close> with
  saturation \<open>1.2\<close>, brightness 1, on the first call: the row mean is \<open>400 / 3\<close>
  (133.33), the row after saturation is \<open>(640 / 3, 280 / 3, 280 / 3)\<close>, that is
  (213.33, 93.33, 93.33), and the output row is \<open>(213, 93, 93)\<close>. Nothing is cut off
  at 255.
\<close>

theorem saturation_example:
  "row_mean (200, 100, 100) = 400 / 3 \<and>
   saturate_px (12 / 10) (200, 100, 100) = (640 / 3, 280 / 3, 280 / 3) \<and>
   fst (ColorProcessor_process (ColorProcessor_init 1 (12 / 10) a)
          (replicate (nat NUM_LEDS_TOTAL) (200, 100, 100)))
     = replicate (nat NUM_LEDS_TOTAL) (213, 93, 93) \<and>
   fst (Ambilight_process_colors (Ambilight_init 1 (12 / 10) a ser)
          (replicate (nat NUM_LEDS_TOTAL) (200, 100, 100)))
     = replicate (nat NUM_LEDS_TOTAL) (213, 93, 93)"
proof -
  have 1: "row_mean (200, 100, 100) = 400 / 3"
    by (simp add: row_mean_def)
  have 2: "saturate_px (12 / 10) (200, 100, 100) = (640 / 3, 280 / 3, 280 / 3)"
    by (simp add: saturate_px_def row_mean_def)
  have 4: "fst (ColorProcessor_process (ColorProcessor_init 1 (12 / 10) a) (replicate n (200, 100, 100)))
     = replicate n (213, 93, 93)" for n
    by (simp add: ColorProcessor_process_def ColorProcessor_init_def saturate_px_def row_mean_def
        clip_convert_px_def np_clip_def astype_uint8_def)
  have 5: "fst (Ambilight_process_colors (Ambilight_init 1 (12 / 10) a ser) (replicate n (200, 100, 100)))
     = replicate n (213, 93, 93)" for n
    by (simp add: Ambilight_process_colors_def Ambilight_init_def saturate_px_def row_mean_def
        clip_convert_px_def np_clip_def astype_uint8_def)
  from 1 2 4 5 show ?thesis by simp
qed

text \<open>
  The specification's figures for this example, a red channel of about 280 before
  clipping and the output \<open>(255, 93, 93)\<close>, are not what either variant computes.
\<close>

theorem saturation_example_not_clamped:
  "fst (saturate_px (12 / 10) (200, 100, 100)) < 255 \<and>
   fst (ColorProcessor_process (ColorProcessor_init 1 (12 / 10) (6 / 10)) [(200, 100, 100)])
     \<noteq> [(255, 93, 93)] \<and>
   fst (Ambilight_process_colors
          (Ambilight_init 1 (12 / 10) (6 / 10) \<lparr>is_open = True, written = []\<rparr>) [(200, 100, 100)])
     \<noteq> [(255, 93, 93)]"
  by (simp add: ColorProcessor_process_def ColorProcessor_init_def Ambilight_process_colors_def
      Ambilight_init_def saturate_px_def row_mean_def clip_convert_px_def np_clip_def
      astype_uint8_def)


text \<open>
  The output row does not depend on the last bits of the arithmetic: any values within
  a quarter of \<open>(640 / 3, 280 / 3, 280 / 3)\<close> are converted to \<open>(213, 93, 93)\<close>.
\<close>

lemma conversion_tolerates_rounding:
  assumes "\<bar>r - 640 / 3\<bar> \<le> 1 / 4" and "\<bar>g - 280 / 3\<bar> \<le> 1 / 4" and "\<bar>b - 280 / 3\<bar> \<le> 1 / 4"
  shows "clip_convert_px (r, g, b) = (213, 93, 93)"
proof -
  have r: "213 \<le> r" "r < 214" using assms(1) by linarith+
  have g: "93 \<le> g" "g < 94" using assms(2) by linarith+
  have b: "93 \<le> b" "b < 94" using assms(3) by linarith+
  have "\<lfloor>r\<rfloor> = 213" using r by (intro floor_unique) simp_all
  moreover have "\<lfloor>g\<rfloor> = 93" using g by (intro floor_unique) simp_all
  moreover have "\<lfloor>b\<rfloor> = 93" using b by (intro floor_unique) simp_all
  ultimately show ?thesis
    using r g b by (simp add: clip_convert_px_def np_clip_def astype_uint8_def)
qed

subsection \<open>Serial port selection\<close>

lemma find_single: "filter P xs = [p] \<Longrightarrow> find P xs = Some p"
  by (induction xs) (auto split: if_splits)

lemma find_no_match: "filter P xs = [] \<Longrightarrow> find P xs = None"
  by (induction xs) (auto split: if_splits)

text \<open>
  C6, as the code decides it. A port matches in the pro variant when a keyword occurs in
  its description or in its device name (\<open>pro_match\<close>), in the baseline when a keyword
  occurs in its description (\<open>baseline_match\<close>). With exactly one matching port in the
  list, detection selects that port's device; with a list that is not empty and has no
  matching port, it selects the first port's device; with the empty list it exits with
  status 1.
\<close>

theorem port_auto_detection:
  "(filter pro_match ports = [p] \<longrightarrow> SerialSender_auto_detect ports = Inr (device p)) \<and>
   (ports \<noteq> [] \<and> filter pro_match ports = [] \<longrightarrow>
      SerialSender_auto_detect ports = Inr (device (hd ports))) \<and>
   SerialSender_auto_detect [] = Inl (SystemExit 1) \<and>
   (filter baseline_match ports = [p] \<longrightarrow> Ambilight_detect ports = Inr (device p)) \<and>
   (ports \<noteq> [] \<and> filter baseline_match ports = [] \<longrightarrow>
      Ambilight_detect ports = Inr (device (hd ports))) \<and>
   Ambilight_detect [] = Inl (SystemExit 1)"
proof -
  have 1: "SerialSender_auto_detect ports = Inr (device p)" if "filter pro_match ports = [p]"
    using find_single [OF that] by (simp add: SerialSender_auto_detect_def)
  have 2: "SerialSender_auto_detect ports = Inr (device (hd ports))"
    if "ports \<noteq> []" "filter pro_match ports = []"
    using find_no_match [OF that(2)] that(1)
    by (cases ports) (simp_all add: SerialSender_auto_detect_def)
  have 3: "SerialSender_auto_detect [] = Inl (SystemExit 1)"
    by (simp add: SerialSender_auto_detect_def)
  have 4: "Ambilight_detect ports = Inr (device p)" if "filter baseline_match ports = [p]"
    using find_single [OF that] by (simp add: Ambilight_detect_def)
  have 5: "Ambilight_detect ports = Inr (device (hd ports))"
    if "ports \<noteq> []" "filter baseline_match ports = []"
    using find_no_match [OF that(2)] that(1) by (simp add: Ambilight_detect_def)
  have 6: "Ambilight_detect [] = Inl (SystemExit 1)"
    by (simp add: Ambilight_detect_def)
  from 1 2 3 4 5 6 show ?thesis by blast
qed

theorem port_auto_detection_witness:
  "filter pro_match [\<lparr>device = ''COM1'', description = ''Communications Port (COM1)''\<rparr>,
                     \<lparr>device = ''COM5'', description = ''USB-SERIAL CH340 (COM5)''\<rparr>]
     = [\<lparr>device = ''COM5'', description = ''USB-SERIAL CH340 (COM5)''\<rparr>] \<and>
   SerialSender_auto_detect [\<lparr>device = ''COM1'', description = ''Communications Port (COM1)''\<rparr>,
                             \<lparr>device = ''COM5'', description = ''USB-SERIAL CH340 (COM5)''\<rparr>]
     = Inr ''COM5'' \<and>
   filter baseline_match [\<lparr>device = ''COM1'', description = ''Communications Port (COM1)''\<rparr>,
                          \<lparr>device = ''COM5'', description = ''USB-SERIAL CH340 (COM5)''\<rparr>]
     = [\<lparr>device = ''COM5'', description = ''USB-SERIAL CH340 (COM5)''\<rparr>] \<and>
   Ambilight_detect [\<lparr>device = ''COM1'', description = ''Communications Port (COM1)''\<rparr>,
                     \<lparr>device = ''COM5'', description = ''USB-SERIAL CH340 (COM5)''\<rparr>]
     = Inr ''COM5'' \<and>
   filter pro_match [\<lparr>device = ''COM1'', description = ''Communications Port (COM1)''\<rparr>] = [] \<and>
   SerialSender_auto_detect [\<lparr>device = ''COM1'', description = ''Communications Port (COM1)''\<rparr>]
     = Inr ''COM1'' \<and>
   filter baseline_match [\<lparr>device = ''COM1'', description = ''Communications Port (COM1)''\<rparr>] = [] \<and>
   Ambilight_detect [\<lparr>device = ''COM1'', description = ''Communications Port (COM1)''\<rparr>]
     = Inr ''COM1''"
proof -
  let ?com1 = "\<lparr>device = ''COM1'', description = ''Communications Port (COM1)''\<rparr>"
  let ?com5 = "\<lparr>device = ''COM5'', description = ''USB-SERIAL CH340 (COM5)''\<rparr>"
  have a: "filter pro_match [?com1, ?com5] = [?com5]"
    by (simp add: pro_match_def pro_keywords_def sublist_Cons_right)
  have b: "filter baseline_match [?com1, ?com5] = [?com5]"
    by (simp add: baseline_match_def baseline_keywords_def sublist_Cons_right)
  have c: "filter pro_match [?com1] = []"
    by (simp add: pro_match_def pro_keywords_def sublist_Cons_right)
  have d: "filter baseline_match [?com1] = []"
    by (simp add: baseline_match_def baseline_keywords_def sublist_Cons_right)
  from port_auto_detection [of "[?com1, ?com5]" ?com5] a b
  have "SerialSender_auto_detect [?com1, ?com5] = Inr ''COM5''"
    and "Ambilight_detect [?com1, ?com5] = Inr ''COM5''" by simp_all
  moreover from port_auto_detection [of "[?com1]" ?com1] c d
  have "SerialSender_auto_detect [?com1] = Inr ''COM1''"
    and "Ambilight_detect [?com1] = Inr ''COM1''" by simp_all
  ultimately show ?thesis using a b c d by simp
qed

text \<open>
  The specification speaks of the description alone. In the pro variant a port whose
  device name
  holds a keyword is taken first: of an FTDI adapter at \<^verbatim>\<open>/dev/ttyUSB0\<close> and an Arduino
  at \<^verbatim>\<open>/dev/ttyACM0\<close>, only the Arduino's description matches a keyword, and detection
  selects the adapter; and with no description matching, it selects \<^verbatim>\<open>/dev/ttyUSB0\<close>
  although another port is listed first.
\<close>

theorem pro_detection_prefers_device_name:
  "filter (\<lambda>p. list_ex (\<lambda>k. sublist k (description p)) pro_keywords)
     [\<lparr>device = ''/dev/ttyUSB0'', description = ''FT232R USB UART''\<rparr>,
      \<lparr>device = ''/dev/ttyACM0'', description = ''Arduino Uno''\<rparr>]
     = [\<lparr>device = ''/dev/ttyACM0'', description = ''Arduino Uno''\<rparr>] \<and>
   SerialSender_auto_detect
     [\<lparr>device = ''/dev/ttyUSB0'', description = ''FT232R USB UART''\<rparr>,
      \<lparr>device = ''/dev/ttyACM0'', description = ''Arduino Uno''\<rparr>]
     = Inr ''/dev/ttyUSB0'' \<and>
   filter (\<lambda>p. list_ex (\<lambda>k. sublist k (description p)) pro_keywords)
     [\<lparr>device = ''/dev/ttyS0'', description = ''n/a''\<rparr>,
      \<lparr>device = ''/dev/ttyUSB0'', description = ''n/a''\<rparr>]
     = [] \<and>
   SerialSender_auto_detect
     [\<lparr>device = ''/dev/ttyS0'', description = ''n/a''\<rparr>,
      \<lparr>device = ''/dev/ttyUSB0'', description = ''n/a''\<rparr>]
     = Inr ''/dev/ttyUSB0''"
  by (simp add: SerialSender_auto_detect_def pro_match_def pro_keywords_def sublist_Cons_right)

subsection \<open>Command line and monitor\<close>


text \<open>
  C8 at its failing input. With \<^verbatim>\<open>monitors\<close> holding the combined screen and one
  monitor, \<^verbatim>\<open>--monitor -5\<close> gives \<^verbatim>\<open>idx = -4\<close> and the lookup raises \<^verbatim>\<open>IndexError\<close> in
  both variants; with two monitors, \<^verbatim>\<open>--monitor -2\<close> gives \<^verbatim>\<open>idx = -1\<close>, the last
  monitor, not the nearest valid index. Only the upper bound is clamped.
\<close>

theorem negative_monitor_index_not_clamped:
  "select_monitor [all_in_one, primary] (- 5) = Inl IndexError \<and>
   ScreenCapture_setup_monitor [all_in_one, primary] (- 5) = Inl IndexError \<and>
   Ambilight_setup_monitor [all_in_one, primary] (- 5) = Inl IndexError \<and>
   select_monitor [all_in_one, primary, secondary] (- 2) = Inr secondary"
  by (simp add: select_monitor_def ScreenCapture_setup_monitor_def Ambilight_setup_monitor_def
      py_getitem_def py_index_def)

text \<open>From \<open>- 1\<close> upwards the index is clamped to a valid one.\<close>

lemma select_monitor_clamps_above:
  "- 1 \<le> n \<Longrightarrow> monitors \<noteq> [] \<Longrightarrow>
   select_monitor monitors n = Inr (monitors ! nat (min (n + 1) (int (length monitors) - 1)))"
  by (cases monitors) (auto simp: select_monitor_def py_getitem_def py_index_def min_def)


subsection \<open>Send failures and the main loops\<close>

lemma send_returns_bool: "fst (SerialSender_send ser colors w) = PyBool (w = WriteOk)"
  by (cases w) (simp_all add: SerialSender_send_def)

lemma close_closes: "\<not> is_open (SerialSender_close ser w)"
  by (cases w) (simp_all add: SerialSender_close_def SerialSender_send_def)

lemma pro_cleanup_stops:
  "\<not> running (AmbilightPro_cleanup self w) \<and>
   \<not> is_open (sender (AmbilightPro_cleanup self w))"
  by (simp add: AmbilightPro_cleanup_def close_closes)

lemma amb_cleanup_stops:
  "\<not> amb_running (Ambilight_cleanup self w) \<and>
   \<not> is_open (amb_serial (Ambilight_cleanup self w))"
  by (cases w) (simp_all add: Ambilight_cleanup_def Ambilight_send_def Let_def)

lemma consumer_loop_prefix:
  "consumer_loop self pre = None \<Longrightarrow>
   \<exists>self'. running self' \<and> (\<forall>evs. consumer_loop self (pre @ evs) = consumer_loop self' evs)"
proof (induction pre arbitrary: self)
  case Nil
  then have "running self" by (simp split: if_splits)
  then show ?case by auto
next
  case (Cons ev pre)
  from Cons.prems have run: "running self" by (simp split: if_splits)
  show ?case
  proof (cases ev)
    case KeyboardInterrupt
    with Cons.prems run show ?thesis by simp
  next
    case (Poll r w)
    show ?thesis
    proof (cases r)
      case None
      with Cons.prems run Poll have "consumer_loop self pre = None" by simp
      from Cons.IH [OF this] obtain self' where
        "running self'" "\<forall>evs. consumer_loop self (pre @ evs) = consumer_loop self' evs" by blast
      with run Poll None show ?thesis by auto
    next
      case (Some colors)
      obtain out proc' where p: "ColorProcessor_process (processor self) colors = (out, proc')"
        by (cases "ColorProcessor_process (processor self) colors")
      obtain ok ser' where s: "SerialSender_send (sender self) out w = (ok, ser')"
        by (cases "SerialSender_send (sender self) out w")
      let ?next = "self\<lparr>processor := proc', sender := ser'\<rparr>"
      from Cons.prems run Poll Some p s have ok: "py_truthy ok" and
        rest: "consumer_loop ?next pre = None"
        by (simp_all split: if_splits)
      from Cons.IH [OF rest] obtain self' where
        "running self'" "\<forall>evs. consumer_loop ?next (pre @ evs) = consumer_loop self' evs" by blast
      with run Poll Some p s ok show ?thesis by auto
    qed
  qed
qed

lemma consumer_loop_send_fails:
  "running self \<Longrightarrow>
   \<exists>self'. consumer_loop self (Poll (Some colors) WriteRaises # evs) = Some (SerialError, self')"
  by (simp add: SerialSender_send_def split: prod.splits)

lemma Ambilight_loop_prefix:
  "Ambilight_loop self pre = None \<Longrightarrow>
   \<exists>self'. amb_running self' \<and> (\<forall>evs. Ambilight_loop self (pre @ evs) = Ambilight_loop self' evs)"
proof (induction pre arbitrary: self)
  case Nil
  then have "amb_running self" by (simp split: if_splits)
  then show ?case by auto
next
  case (Cons ev pre)
  from Cons.prems have run: "amb_running self" by (simp split: if_splits)
  show ?case
  proof (cases ev)
    case AmbKeyboardInterrupt
    with Cons.prems run show ?thesis by simp
  next
    case (Frame colors w)
    obtain out self1 where p: "Ambilight_process_colors self colors = (out, self1)"
      by (cases "Ambilight_process_colors self colors")
    obtain r self2 where s: "Ambilight_send self1 out w = (r, self2)"
      by (cases "Ambilight_send self1 out w")
    from Cons.prems run Frame p s have rest: "Ambilight_loop self2 pre = None"
      by simp
    from Cons.IH [OF rest] obtain self' where
      "amb_running self'" "\<forall>evs. Ambilight_loop self2 (pre @ evs) = Ambilight_loop self' evs" by blast
    with run Frame p s show ?thesis by auto
  qed
qed

lemma Ambilight_loop_not_running:
  "\<not> amb_running self \<Longrightarrow> Ambilight_loop self evs = Some (LoopEnded, self)"
  by (cases evs) simp_all

lemma Ambilight_loop_send_fails:
  "amb_running self \<Longrightarrow>
   \<exists>self'. Ambilight_loop self (Frame colors WriteRaises # evs) = Some (LoopEnded, self')"
  by (simp add: Ambilight_send_def Ambilight_loop_not_running split: prod.splits)

text \<open>
  C7, as the code behaves. In the pro variant \<^verbatim>\<open>send\<close> returns a boolean, \<^verbatim>\<open>False\<close>
  exactly when the write raises, and raises nothing itself; in an iteration of the
  consumer loop that has a sample and whose write raises, the loop is left at once
  (\<^verbatim>\<open>break\<close>), and \<^verbatim>\<open>run\<close> goes on to \<^verbatim>\<open>cleanup\<close>, after which \<^verbatim>\<open>running\<close> is false and the
  port is closed. In the baseline \<^verbatim>\<open>send\<close> returns \<^verbatim>\<open>None\<close> whatever happens and clears
  \<^verbatim>\<open>running\<close> when the write raises; the loop then ends at its next test of
  \<^verbatim>\<open>self.running\<close>, and \<^verbatim>\<open>run\<close> goes on to \<^verbatim>\<open>cleanup\<close> in the same way. \<open>pre\<close> is any run
  of earlier iterations that did not end the loop.
\<close>

theorem send_failure_ends_the_loop:
  "fst (SerialSender_send ser colors w) = PyBool (w = WriteOk) \<and>
   (consumer_loop (self\<lparr>running := True\<rparr>) pre = None \<longrightarrow>
      (\<exists>self'. consumer_loop (self\<lparr>running := True\<rparr>) (pre @ Poll (Some sample) WriteRaises # evs)
                  = Some (SerialError, self') \<and>
               AmbilightPro_run self (pre @ Poll (Some sample) WriteRaises # evs) w_close
                  = Some (SerialError, AmbilightPro_cleanup self' w_close) \<and>
               \<not> running (AmbilightPro_cleanup self' w_close) \<and>
               \<not> is_open (sender (AmbilightPro_cleanup self' w_close)))) \<and>
   fst (Ambilight_send amb colors w) = PyNone \<and>
   amb_running (snd (Ambilight_send amb colors w)) = (amb_running amb \<and> w = WriteOk) \<and>
   (Ambilight_loop (amb\<lparr>amb_running := True\<rparr>) pre' = None \<longrightarrow>
      (\<exists>amb'. Ambilight_loop (amb\<lparr>amb_running := True\<rparr>) (pre' @ Frame sample WriteRaises # evs')
                  = Some (LoopEnded, amb') \<and>
              Ambilight_run amb (pre' @ Frame sample WriteRaises # evs') w_close
                  = Some (LoopEnded, Ambilight_cleanup amb' w_close) \<and>
              \<not> amb_running (Ambilight_cleanup amb' w_close) \<and>
              \<not> is_open (amb_serial (Ambilight_cleanup amb' w_close))))"
proof -
  have a: "fst (SerialSender_send ser colors w) = PyBool (w = WriteOk)"
    by (rule send_returns_bool)
  have b: "\<exists>self'. consumer_loop (self\<lparr>running := True\<rparr>) (pre @ Poll (Some sample) WriteRaises # evs)
                  = Some (SerialError, self') \<and>
               AmbilightPro_run self (pre @ Poll (Some sample) WriteRaises # evs) w_close
                  = Some (SerialError, AmbilightPro_cleanup self' w_close) \<and>
               \<not> running (AmbilightPro_cleanup self' w_close) \<and>
               \<not> is_open (sender (AmbilightPro_cleanup self' w_close))"
    if "consumer_loop (self\<lparr>running := True\<rparr>) pre = None"
  proof -
    from consumer_loop_prefix [OF that] obtain s1 where
      s1: "running s1"
        "\<forall>evs. consumer_loop (self\<lparr>running := True\<rparr>) (pre @ evs) = consumer_loop s1 evs"
      by blast
    from consumer_loop_send_fails [OF s1(1), of sample evs] obtain s2 where
      "consumer_loop s1 (Poll (Some sample) WriteRaises # evs) = Some (SerialError, s2)" by blast
    with s1(2) have
      "consumer_loop (self\<lparr>running := True\<rparr>) (pre @ Poll (Some sample) WriteRaises # evs)
         = Some (SerialError, s2)" by simp
    then show ?thesis
      by (simp add: AmbilightPro_run_def pro_cleanup_stops)
  qed
  have c: "fst (Ambilight_send amb colors w) = PyNone"
    by (cases w) (simp_all add: Ambilight_send_def)
  have d: "amb_running (snd (Ambilight_send amb colors w)) = (amb_running amb \<and> w = WriteOk)"
    by (cases w) (simp_all add: Ambilight_send_def)
  have e: "\<exists>amb'. Ambilight_loop (amb\<lparr>amb_running := True\<rparr>) (pre' @ Frame sample WriteRaises # evs')
                  = Some (LoopEnded, amb') \<and>
              Ambilight_run amb (pre' @ Frame sample WriteRaises # evs') w_close
                  = Some (LoopEnded, Ambilight_cleanup amb' w_close) \<and>
              \<not> amb_running (Ambilight_cleanup amb' w_close) \<and>
              \<not> is_open (amb_serial (Ambilight_cleanup amb' w_close))"
    if "Ambilight_loop (amb\<lparr>amb_running := True\<rparr>) pre' = None"
  proof -
    from Ambilight_loop_prefix [OF that] obtain s1 where
      s1: "amb_running s1"
        "\<forall>evs. Ambilight_loop (amb\<lparr>amb_running := True\<rparr>) (pre' @ evs) = Ambilight_loop s1 evs"
      by blast
    from Ambilight_loop_send_fails [OF s1(1), of sample evs'] obtain s2 where
      "Ambilight_loop s1 (Frame sample WriteRaises # evs') = Some (LoopEnded, s2)" by blast
    with s1(2) have
      "Ambilight_loop (amb\<lparr>amb_running := True\<rparr>) (pre' @ Frame sample WriteRaises # evs')
         = Some (LoopEnded, s2)" by simp
    then show ?thesis
      by (simp add: Ambilight_run_def amb_cleanup_stops)
  qed
  from a b c d e show ?thesis by blast
qed


theorem send_failure_witness:
  "consumer_loop
     (\<lparr>running = False, processor = ColorProcessor_init 1 (12 / 10) (6 / 10),
       sender = \<lparr>is_open = True, written = []\<rparr>\<rparr>\<lparr>running := True\<rparr>)
     [Poll None WriteOk, Poll (Some [(200, 100, 100)]) WriteOk] = None \<and>
   (\<exists>self'. AmbilightPro_run
               \<lparr>running = False, processor = ColorProcessor_init 1 (12 / 10) (6 / 10),
                sender = \<lparr>is_open = True, written = []\<rparr>\<rparr>
               ([Poll None WriteOk, Poll (Some [(200, 100, 100)]) WriteOk]
                  @ Poll (Some [(10, 20, 30)]) WriteRaises # [])
               WriteOk = Some (SerialError, self') \<and>
            \<not> running self' \<and> \<not> is_open (sender self')) \<and>
   Ambilight_loop
     ((Ambilight_init 1 (12 / 10) (6 / 10) \<lparr>is_open = True, written = []\<rparr>)\<lparr>amb_running := True\<rparr>)
     [Frame [(200, 100, 100)] WriteOk] = None \<and>
   (\<exists>amb'. Ambilight_run
              (Ambilight_init 1 (12 / 10) (6 / 10) \<lparr>is_open = True, written = []\<rparr>)
              ([Frame [(200, 100, 100)] WriteOk] @ Frame [(10, 20, 30)] WriteRaises # [])
              WriteOk = Some (LoopEnded, amb') \<and>
           \<not> amb_running amb' \<and> \<not> is_open (amb_serial amb'))"
proof -
  let ?pro = "\<lparr>running = False, processor = ColorProcessor_init 1 (12 / 10) (6 / 10),
               sender = \<lparr>is_open = True, written = []\<rparr>\<rparr>"
  let ?amb = "Ambilight_init 1 (12 / 10) (6 / 10) \<lparr>is_open = True, written = []\<rparr>"
  have h1: "consumer_loop (?pro\<lparr>running := True\<rparr>)
              [Poll None WriteOk, Poll (Some [(200, 100, 100)]) WriteOk] = None"
    by (simp add: SerialSender_send_def split: prod.splits)
  have h2: "Ambilight_loop (?amb\<lparr>amb_running := True\<rparr>) [Frame [(200, 100, 100)] WriteOk] = None"
    by (simp add: Ambilight_send_def Ambilight_process_colors_def Ambilight_init_def Let_def)
  note t = send_failure_ends_the_loop [where self = ?pro
      and pre = "[Poll None WriteOk, Poll (Some [(200, 100, 100)]) WriteOk]"
      and sample = "[(10, 20, 30)]" and evs = "[]" and w_close = WriteOk
      and amb = ?amb and pre' = "[Frame [(200, 100, 100)] WriteOk]" and evs' = "[]"]
  from t h1 have p: "\<exists>self'. AmbilightPro_run ?pro
               ([Poll None WriteOk, Poll (Some [(200, 100, 100)]) WriteOk]
                  @ Poll (Some [(10, 20, 30)]) WriteRaises # [])
               WriteOk = Some (SerialError, self') \<and>
            \<not> running self' \<and> \<not> is_open (sender self')"
    by blast
  from t h2 have a: "\<exists>amb'. Ambilight_run ?amb
              ([Frame [(200, 100, 100)] WriteOk] @ Frame [(10, 20, 30)] WriteRaises # [])
              WriteOk = Some (LoopEnded, amb') \<and>
           \<not> amb_running amb' \<and> \<not> is_open (amb_serial amb')"
    by blast
  from h1 h2 p a show ?thesis by blast
qed

text \<open>
  The specification has \<^verbatim>\<open>send\<close> return a boolean. The baseline's \<^verbatim>\<open>send\<close> returns
  \<^verbatim>\<open>None\<close>, on failure as on success.
\<close>

theorem baseline_send_returns_none:
  "fst (Ambilight_send (Ambilight_init 1 (12 / 10) (6 / 10) \<lparr>is_open = True, written = []\<rparr>)
          black WriteRaises) = PyNone \<and>
   fst (Ambilight_send (Ambilight_init 1 (12 / 10) (6 / 10) \<lparr>is_open = True, written = []\<rparr>)
          black WriteOk) = PyNone \<and>
   PyNone \<noteq> PyBool False"
  by (simp add: Ambilight_send_def)


end
